theory Spec2Isabelle
  imports Complex_Main
begin

section \<open>Error taxonomy (app/errors.ts)\<close>

datatype AppErrorType =
  ParseError | ValidationError | PolicyError | RepoError | ConfigError | UnknownError

datatype ErrorCode =
  CSV_READ_ERROR | CSV_PARSE_ERROR | VALIDATION_FAILED
  | POLICY_DISPOSABLE_EMAIL | POLICY_DUPLICATE | POLICY_STALE_UPDATE
  | REPO_NOT_FOUND | REPO_CONFLICT | REPO_WRITE_FAILED
  | CONFIG_INVALID | CONFIG_MISSING | UNKNOWN

text \<open>
  The \<open>cause\<close> of an error is an arbitrary JavaScript value; the only causes the modelled
  code builds are absent ones and the \<open>{name, message}\<close> summary of an \<open>Error\<close> object.
  The \<open>details\<close> are the handful of record shapes the modelled code builds; time stamps
  are kept as epoch milliseconds instead of their ISO rendering.
\<close>

datatype Cause = NoCause | ErrorCause string string

datatype Details =
  NoDetails
  | DomainDetails string
  | DuplicateDetails string string
  | StaleDetails int int
  | IdDetails string

record AppError =
  errType :: AppErrorType
  code :: ErrorCode
  message :: string
  cause :: Cause
  details :: Details

definition createFactory :: "AppErrorType \<Rightarrow> ErrorCode \<Rightarrow> string \<Rightarrow> Cause \<Rightarrow> Details \<Rightarrow> AppError" where
  "createFactory t c m ca d = \<lparr>errType = t, code = c, message = m, cause = ca, details = d\<rparr>"

definition createParseError :: "ErrorCode \<Rightarrow> string \<Rightarrow> Cause \<Rightarrow> Details \<Rightarrow> AppError" where
  "createParseError = createFactory ParseError"

definition createPolicyError :: "ErrorCode \<Rightarrow> string \<Rightarrow> Cause \<Rightarrow> Details \<Rightarrow> AppError" where
  "createPolicyError = createFactory PolicyError"

definition createRepoError :: "ErrorCode \<Rightarrow> string \<Rightarrow> Cause \<Rightarrow> Details \<Rightarrow> AppError" where
  "createRepoError = createFactory RepoError"

definition createUnknownError :: "ErrorCode \<Rightarrow> string \<Rightarrow> Cause \<Rightarrow> Details \<Rightarrow> AppError" where
  "createUnknownError = createFactory UnknownError"

text \<open>\<open>wrapUnknown(new Error(msg))\<close>: the cause is the name and message of the error object.\<close>

definition wrapUnknown :: "string \<Rightarrow> AppError" where
  "wrapUnknown msg =
     createUnknownError UNKNOWN ''An unexpected error occurred'' (ErrorCause ''Error'' msg) NoDetails"

section \<open>Retry executor (infra/retry.ts)\<close>

record RetryOptions =
  maxAttempts :: int
  baseDelayMs :: real
  maxDelayMs :: real
  factor :: real

record RetryContext =
  operationName :: "string option"
  spanId :: "string option"

subsection \<open>Numbers\<close>

text \<open>
  A JavaScript number is a double: a finite value, an infinity or \<open>NaN\<close> (the sign of
  zero is not kept). The result of an arithmetic operation on finite values is the exact
  result rounded to a double by \<open>rd\<close>, the rounding of the runtime, which is a parameter;
  an exact result at or beyond \<open>2^1024 - 2^970\<close>, the midpoint between the largest double
  and \<open>2^1024\<close>, becomes an infinity. \<open>Math.pow\<close> with a finite base and a natural
  exponent is taken as the rounded exact power.
\<close>

datatype JsNumber = Dbl real | Infinity | NegInfinity | NaN

definition overflowBound :: real where
  "overflowBound = 2 ^ 1024 - 2 ^ 970"

definition toDouble :: "(real \<Rightarrow> real) \<Rightarrow> real \<Rightarrow> JsNumber" where
  "toDouble rd x =
     (if x \<ge> overflowBound then Infinity
      else if x \<le> - overflowBound then NegInfinity
      else Dbl (rd x))"

fun jsMul :: "(real \<Rightarrow> real) \<Rightarrow> JsNumber \<Rightarrow> JsNumber \<Rightarrow> JsNumber" where
  "jsMul rd NaN b = NaN"
| "jsMul rd a NaN = NaN"
| "jsMul rd (Dbl x) (Dbl y) = toDouble rd (x * y)"
| "jsMul rd (Dbl x) Infinity = (if x = 0 then NaN else if x > 0 then Infinity else NegInfinity)"
| "jsMul rd (Dbl x) NegInfinity = (if x = 0 then NaN else if x > 0 then NegInfinity else Infinity)"
| "jsMul rd Infinity (Dbl y) = (if y = 0 then NaN else if y > 0 then Infinity else NegInfinity)"
| "jsMul rd NegInfinity (Dbl y) = (if y = 0 then NaN else if y > 0 then NegInfinity else Infinity)"
| "jsMul rd Infinity Infinity = Infinity"
| "jsMul rd Infinity NegInfinity = NegInfinity"
| "jsMul rd NegInfinity Infinity = NegInfinity"
| "jsMul rd NegInfinity NegInfinity = Infinity"

text \<open>\<open>Math.min\<close>: \<open>NaN\<close> when an argument is \<open>NaN\<close>.\<close>

fun jsMin :: "JsNumber \<Rightarrow> JsNumber \<Rightarrow> JsNumber" where
  "jsMin NaN b = NaN"
| "jsMin a NaN = NaN"
| "jsMin NegInfinity b = NegInfinity"
| "jsMin a NegInfinity = NegInfinity"
| "jsMin Infinity b = b"
| "jsMin a Infinity = a"
| "jsMin (Dbl x) (Dbl y) = Dbl (min x y)"

definition jsPow :: "(real \<Rightarrow> real) \<Rightarrow> real \<Rightarrow> nat \<Rightarrow> JsNumber" where
  "jsPow rd x n = toDouble rd (x ^ n)"

text \<open>The comparison \<open>a <= b\<close> of JavaScript: false when an argument is \<open>NaN\<close>.\<close>

fun jsLe :: "JsNumber \<Rightarrow> JsNumber \<Rightarrow> bool" where
  "jsLe NaN b = False"
| "jsLe a NaN = False"
| "jsLe NegInfinity b = True"
| "jsLe a Infinity = True"
| "jsLe (Dbl x) (Dbl y) = (x \<le> y)"
| "jsLe a b = False"

subsection \<open>The executor\<close>

text \<open>
  \<open>computeDelay\<close> draws from \<open>Math.random()\<close>; the draw is the parameter \<open>r\<close>. The
  options are finite numbers, as the configuration schema yields them. Attempt numbers
  are integers, so the exponent \<open>Math.max(0, attempt - 1)\<close> is a natural number.
\<close>

definition computeDelay :: "(real \<Rightarrow> real) \<Rightarrow> int \<Rightarrow> RetryOptions \<Rightarrow> real \<Rightarrow> JsNumber" where
  "computeDelay rd attempt options r =
     (let exponential = jsMul rd (Dbl (baseDelayMs options))
                          (jsPow rd (factor options) (nat (max 0 (attempt - 1))));
          capped = jsMin (Dbl (maxDelayMs options)) exponential
      in jsMul rd (Dbl r) capped)"

text \<open>
  The effects of the executor besides running the operation: the log records it emits,
  the delays it passes to the timer, and the random numbers it consumes. The runtime gives
  the random numbers (the \<open>n\<close>-th call of \<open>Math.random()\<close> returns \<open>mathRandom rt n\<close>) and
  the rounding of its arithmetic.
\<close>

record Runtime =
  mathRandom :: "nat \<Rightarrow> real"
  roundDouble :: "real \<Rightarrow> real"

datatype LogRecord =
  RetrySucceeded "string option" "string option" int
  | RetryAttemptFailed "string option" "string option" int ErrorCode AppErrorType

record RetryEnv =
  logged :: "LogRecord list"
  slept :: "JsNumber list"
  draws :: nat

definition awaitDelay :: "RetryOptions \<Rightarrow> Runtime \<Rightarrow> int \<Rightarrow> RetryEnv \<Rightarrow> RetryEnv" where
  "awaitDelay options rt currentAttempt env =
     env\<lparr>slept := slept env @ [computeDelay (roundDouble rt) currentAttempt options
                                  (mathRandom rt (draws env))],
         draws := Suc (draws env)\<rparr>"

definition succeed :: "RetryContext \<Rightarrow> int \<Rightarrow> 'a \<Rightarrow> RetryEnv \<Rightarrow> (AppError + 'a) \<times> RetryEnv" where
  "succeed ctx attempt v env =
     (Inr v,
      if attempt > 1
      then env\<lparr>logged := logged env @ [RetrySucceeded (spanId ctx) (operationName ctx) attempt]\<rparr>
      else env)"

text \<open>
  The operation is a computation on a state of its own (\<open>'s\<close>): it gets the attempt number
  and the state, and returns a result and the next state.
\<close>

function execute ::
    "RetryOptions \<Rightarrow> Runtime \<Rightarrow> RetryContext \<Rightarrow> (int \<Rightarrow> 's \<Rightarrow> (AppError + 'a) \<times> 's)
     \<Rightarrow> int \<Rightarrow> AppError option \<Rightarrow> 's \<Rightarrow> RetryEnv \<Rightarrow> (AppError + 'a) \<times> 's \<times> RetryEnv"
  and fail ::
    "RetryOptions \<Rightarrow> Runtime \<Rightarrow> RetryContext \<Rightarrow> (int \<Rightarrow> 's \<Rightarrow> (AppError + 'a) \<times> 's)
     \<Rightarrow> int \<Rightarrow> AppError \<Rightarrow> 's \<Rightarrow> RetryEnv \<Rightarrow> (AppError + 'a) \<times> 's \<times> RetryEnv"
where
  "execute options rt ctx operation attempt lastError s env =
     (if attempt > maxAttempts options
      then (Inl (case lastError of Some e \<Rightarrow> e | None \<Rightarrow> wrapUnknown ''Retry exceeded attempts''),
            s, env)
      else (case operation attempt s of
              (Inr v, s') \<Rightarrow> (case succeed ctx attempt v env of (r, env') \<Rightarrow> (r, s', env'))
            | (Inl e, s') \<Rightarrow> fail options rt ctx operation attempt e s' env))"
| "fail options rt ctx operation attempt error s env =
     (let env1 = env\<lparr>logged := logged env @
                   [RetryAttemptFailed (spanId ctx) (operationName ctx) attempt
                      (code error) (errType error)]\<rparr>
      in if attempt \<ge> maxAttempts options
         then (Inl error, s, env1)
         else execute options rt ctx operation (attempt + 1) (Some error) s
                (awaitDelay options rt attempt env1))"
  by pat_completeness auto
termination
  by (relation "measure (\<lambda>x. case x of
        Inl (options, _, _, _, attempt, _) \<Rightarrow> 2 * nat (maxAttempts options + 1 - attempt) + 1
      | Inr (options, _, _, _, attempt, _) \<Rightarrow> 2 * nat (maxAttempts options + 1 - attempt))")
     auto

definition createRetryExecutor ::
    "RetryOptions \<Rightarrow> Runtime \<Rightarrow> (int \<Rightarrow> 's \<Rightarrow> (AppError + 'a) \<times> 's) \<Rightarrow> RetryContext
     \<Rightarrow> 's \<Rightarrow> RetryEnv \<Rightarrow> (AppError + 'a) \<times> 's \<times> RetryEnv" where
  "createRetryExecutor options rt operation ctx s env =
     execute options rt ctx operation 1 None s env"


section \<open>Domain model (domain/models.ts)\<close>

text \<open>
  A validated user. \<open>updatedAt\<close> is the \<open>getTime()\<close> of the JavaScript date, in epoch
  milliseconds; the field \<open>id\<close> of the source is \<open>id_user\<close> here.
\<close>

record User =
  id_user :: string
  name :: string
  email :: string
  age :: int
  updatedAt :: int

subsection \<open>The string operations the code uses\<close>

text \<open>
  \<open>toLowerCase\<close> on the ASCII letters. Other characters are left as they are, where
  JavaScript also lower-cases the letters outside ASCII; nothing below depends on those.
\<close>

definition toLowerChar :: "char \<Rightarrow> char" where
  "toLowerChar c =
     (let n = (of_char c :: nat) in if 65 \<le> n \<and> n \<le> 90 then char_of (n + 32) else c)"

definition toLowerCase :: "string \<Rightarrow> string" where
  "toLowerCase str = map toLowerChar str"

text \<open>\<open>str.split(sep)\<close> for a one-character separator: never empty, \<open>"".split("@") = [""]\<close>.\<close>

fun split :: "char \<Rightarrow> string \<Rightarrow> string list" where
  "split sep [] = [[]]"
| "split sep (c # cs) =
     (if c = sep then [] # split sep cs
      else (case split sep cs of [] \<Rightarrow> [[c]] | w # ws \<Rightarrow> (c # w) # ws))"

section \<open>In-memory repository (infra/repo.memory.ts)\<close>

record IdempotencyEntry =
  expiresAt :: int
  userIds :: "string set"

datatype RepoLogRecord = IdempotentReplay "string option" string

record MemoryUserRepository =
  byId :: "string \<rightharpoonup> User"
  byEmail :: "string \<rightharpoonup> string"
  idempotency :: "string \<rightharpoonup> IdempotencyEntry"
  idempotencyTtlMs :: int
  logger :: "RepoLogRecord list"

definition cloneUser :: "User \<Rightarrow> User" where
  "cloneUser user = user\<lparr>updatedAt := updatedAt user\<rparr>"

definition findById :: "string \<Rightarrow> MemoryUserRepository \<Rightarrow> (AppError + User option) \<times> MemoryUserRepository" where
  "findById ident repo = (Inr (map_option cloneUser (byId repo ident)), repo)"

text \<open>\<open>id ? this.byId.get(id) ?? null : null\<close>: an empty id string is falsy.\<close>

definition findByEmail :: "string \<Rightarrow> MemoryUserRepository \<Rightarrow> (AppError + User option) \<times> MemoryUserRepository" where
  "findByEmail mail repo =
     (let key = toLowerCase mail;
          ident = byEmail repo key;
          user = (case ident of None \<Rightarrow> None
                  | Some i \<Rightarrow> if i \<noteq> [] then byId repo i else None)
      in (Inr (map_option cloneUser user), repo))"

text \<open>
  An optional string used as a condition (\<open>idempotencyKey ? ... : ...\<close>): absent and
  empty keys are falsy.
\<close>

definition truthyKey :: "string option \<Rightarrow> string option" where
  "truthyKey key = (case key of None \<Rightarrow> None | Some k \<Rightarrow> if k = [] then None else Some k)"

text \<open>
  \<open>entry?.expiresAt ? entry.expiresAt > now : false\<close>: no entry, or an expiry of zero
  (falsy), is not active.
\<close>

definition entryActive :: "IdempotencyEntry option \<Rightarrow> int \<Rightarrow> bool" where
  "entryActive entry now =
     (case entry of None \<Rightarrow> False
      | Some e \<Rightarrow> if expiresAt e \<noteq> 0 then expiresAt e > now else False)"

definition persistIdempotency :: "string \<Rightarrow> string \<Rightarrow> int \<Rightarrow> MemoryUserRepository \<Rightarrow> MemoryUserRepository" where
  "persistIdempotency key userId now repo =
     (let existing = idempotency repo key;
          expires = now + idempotencyTtlMs repo;
          active = entryActive existing now
      in if active
         then (case existing of
                 None \<Rightarrow> repo
               | Some e \<Rightarrow> repo\<lparr>idempotency :=
                            (idempotency repo)(key \<mapsto> e\<lparr>userIds := insert userId (userIds e)\<rparr>)\<rparr>)
         else repo\<lparr>idempotency :=
                (idempotency repo)(key \<mapsto> \<lparr>expiresAt = expires, userIds = {userId}\<rparr>)\<rparr>)"

definition replayEligible :: "User \<Rightarrow> string option \<Rightarrow> int \<Rightarrow> MemoryUserRepository \<Rightarrow> bool" where
  "replayEligible user key now repo =
     (let entry = (case truthyKey key of None \<Rightarrow> None | Some k \<Rightarrow> idempotency repo k)
      in case entry of None \<Rightarrow> False
         | Some e \<Rightarrow> if expiresAt e \<noteq> 0
                     then expiresAt e > now \<and> id_user user \<in> userIds e else False)"

definition cached :: "User \<Rightarrow> string option \<Rightarrow> int \<Rightarrow> MemoryUserRepository \<Rightarrow> User option" where
  "cached user key now repo =
     (if replayEligible user key now repo then byId repo (id_user user) else None)"

definition persistFresh :: "User \<Rightarrow> string option \<Rightarrow> int \<Rightarrow> MemoryUserRepository \<Rightarrow> User \<times> MemoryUserRepository" where
  "persistFresh user key now repo =
     (let stored = cloneUser (user\<lparr>email := toLowerCase (email user)\<rparr>);
          repo1 = repo\<lparr>byId := (byId repo)(id_user stored \<mapsto> stored)\<rparr>;
          repo2 = repo1\<lparr>byEmail := (byEmail repo1)(email stored \<mapsto> id_user stored)\<rparr>;
          repo3 = (case truthyKey key of None \<Rightarrow> repo2
                   | Some k \<Rightarrow> persistIdempotency k (id_user stored) now repo2)
      in (cloneUser stored, repo3))"

text \<open>
  \<open>upsert\<close> at the time \<open>now\<close> (the value of \<open>Date.now()\<close>). Nothing in the body throws,
  so the \<open>REPO_WRITE_FAILED\<close> mapping of \<open>fromPromise\<close> is never taken and the result is
  always \<open>Inr\<close>.
\<close>

definition upsert :: "User \<Rightarrow> string option \<Rightarrow> int \<Rightarrow> MemoryUserRepository \<Rightarrow> (AppError + User) \<times> MemoryUserRepository" where
  "upsert user key now repo =
     (case cached user key now repo of
        Some c \<Rightarrow> (Inr (cloneUser c),
                   repo\<lparr>logger := logger repo @ [IdempotentReplay key (id_user user)]\<rparr>)
      | None \<Rightarrow> (case persistFresh user key now repo of (stored, repo') \<Rightarrow> (Inr stored, repo')))"

subsection \<open>Bulk persistence\<close>

text \<open>
  \<open>bulkUpsert\<close> works on the repository, the clock (\<open>Date.now()\<close>) and whatever state the
  retry executor of the options keeps (\<open>ext\<close>). The executor is a parameter, as
  \<open>options.retry\<close> is; one retried upsert is taken as one step.

  The source builds both strategies before it selects one by \<open>failFast\<close>:
  \<open>sequential(users, [])\<close> is called, which starts the chain, and
  \<open>Promise.all(users.map((user) => limiter(...)))\<close> is evaluated, which queues one task
  per user in the limiter. Both run. The first step of the chain runs inside the call of
  \<open>sequential\<close>, before any task is queued; how the later steps interleave with the
  tasks depends on timers, so it is the parameter \<open>sched\<close>: its \<open>i\<close>-th number is how
  many queued tasks run after the \<open>i\<close>-th successful step of the chain. Tasks leave the
  limiter in the order of submission; those still queued when the chain has ended run
  after it. The world returned is the one after all of them have settled.
\<close>

record 'x BulkWorld =
  store :: MemoryUserRepository
  nowMs :: int
  ext :: 'x

type_synonym 'x RetryFn =
  "(int \<Rightarrow> 'x BulkWorld \<Rightarrow> (AppError + User) \<times> 'x BulkWorld)
   \<Rightarrow> 'x BulkWorld \<Rightarrow> (AppError + User) \<times> 'x BulkWorld"

record BulkUpsertResult =
  successes :: "User list"
  failures :: "(User \<times> AppError) list"

definition upsertOp :: "User \<Rightarrow> string option \<Rightarrow> int \<Rightarrow> 'x BulkWorld \<Rightarrow> (AppError + User) \<times> 'x BulkWorld" where
  "upsertOp user key attempt w =
     (case upsert user key (nowMs w) (store w) of (r, s') \<Rightarrow> (r, w\<lparr>store := s'\<rparr>))"

definition runTasks ::
    "'x RetryFn \<Rightarrow> string option \<Rightarrow> User list
     \<Rightarrow> (User \<times> (AppError + User)) list \<times> 'x BulkWorld
     \<Rightarrow> (User \<times> (AppError + User)) list \<times> 'x BulkWorld" where
  "runTasks retry key users start =
     foldl (\<lambda>(settled, w) user.
              case retry (upsertOp user key) w of (r, w') \<Rightarrow> (settled @ [(user, r)], w'))
       start users"

fun sequential ::
    "'x RetryFn \<Rightarrow> string option \<Rightarrow> nat list \<Rightarrow> User list \<Rightarrow> User list
     \<Rightarrow> User list \<times> (User \<times> (AppError + User)) list \<times> 'x BulkWorld
     \<Rightarrow> (AppError + User list) \<times> User list \<times> (User \<times> (AppError + User)) list \<times> 'x BulkWorld" where
  "sequential retry key sched [] acc st = (Inr acc, st)"
| "sequential retry key sched (u # rest) acc (pending, settled, w) =
     (case retry (upsertOp u key) w of
        (Inl e, w') \<Rightarrow> (Inl e, pending, settled, w')
      | (Inr stored, w') \<Rightarrow>
          (let k = (case sched of [] \<Rightarrow> 0 | k # _ \<Rightarrow> k);
               (settled', w'') = runTasks retry key (take k pending) (settled, w')
           in sequential retry key (tl sched) rest (acc @ [stored]) (drop k pending, settled', w'')))"

definition aggregate :: "(User \<times> (AppError + User)) list \<Rightarrow> BulkUpsertResult" where
  "aggregate settled =
     foldl (\<lambda>acc item.
              case snd item of
                Inr v \<Rightarrow> \<lparr>successes = successes acc @ [v], failures = failures acc\<rparr>
              | Inl e \<Rightarrow> \<lparr>successes = successes acc, failures = failures acc @ [(fst item, e)]\<rparr>)
       \<lparr>successes = [], failures = []\<rparr> settled"

definition bulkUpsert ::
    "'x RetryFn \<Rightarrow> string option \<Rightarrow> bool \<Rightarrow> nat list \<Rightarrow> User list \<Rightarrow> 'x BulkWorld
     \<Rightarrow> (AppError + BulkUpsertResult) \<times> 'x BulkWorld" where
  "bulkUpsert retry key failFast sched users w =
     (case sequential retry key sched users [] (users, [], w) of
        (seqOutcome, pending, settled, w1) \<Rightarrow>
          (case runTasks retry key pending (settled, w1) of
             (settled', w2) \<Rightarrow>
               (let sequentialResult =
                      (case seqOutcome of
                         Inl e \<Rightarrow> Inl e
                       | Inr done \<Rightarrow> Inr \<lparr>successes = done, failures = []\<rparr>);
                    concurrentResult = Inr (aggregate settled')
                in (if failFast then sequentialResult else concurrentResult, w2))))"

section \<open>Policy evaluation (domain/policies.ts)\<close>

definition DEFAULT_DISPOSABLE_DOMAINS :: "string list" where
  "DEFAULT_DISPOSABLE_DOMAINS =
     [''mailinator.com'', ''trashmail.com'', ''10minutemail.com'', ''tempmail.com'']"

datatype PolicyOutcome = Accept User | Skip User AppError

definition isDisposable :: "string \<Rightarrow> (string \<Rightarrow> bool) option \<Rightarrow> bool" where
  "isDisposable domain custom =
     (case custom of Some f \<Rightarrow> f domain
      | None \<Rightarrow> toLowerCase domain \<in> set DEFAULT_DISPOSABLE_DOMAINS)"

definition toSkip :: "User \<Rightarrow> AppError \<Rightarrow> PolicyOutcome" where
  "toSkip user error = Skip user error"

text \<open>\<open>user.email.split("@")[1] ?? ""\<close>\<close>

definition emailDomain :: "User \<Rightarrow> string" where
  "emailDomain user = (case split CHR ''@'' (email user) of _ # d # _ \<Rightarrow> d | _ \<Rightarrow> [])"

text \<open>
  The repository of \<open>PolicyDependencies\<close> is any pair of lookups; they are computations on
  a state \<open>'s\<close> and may fail.
\<close>

definition resolveByEmail ::
    "User \<Rightarrow> (string \<Rightarrow> 's \<Rightarrow> (AppError + User option) \<times> 's) \<Rightarrow> 's \<Rightarrow> (AppError + PolicyOutcome) \<times> 's" where
  "resolveByEmail user repoFindByEmail s =
     (case repoFindByEmail (email user) s of
        (Inl e, s') \<Rightarrow> (Inl e, s')
      | (Inr matched, s') \<Rightarrow>
          (case matched of
             Some m \<Rightarrow>
               if toLowerCase (name m) = toLowerCase (name user)
               then (Inr (toSkip m (createPolicyError POLICY_DUPLICATE
                       ''Duplicate user detected by email and name'' NoCause
                       (DuplicateDetails (id_user m) (email m)))), s')
               else (Inr (Accept user), s')
           | None \<Rightarrow> (Inr (Accept user), s')))"

definition resolveById ::
    "User \<Rightarrow> (string \<Rightarrow> 's \<Rightarrow> (AppError + User option) \<times> 's)
     \<Rightarrow> (string \<Rightarrow> 's \<Rightarrow> (AppError + User option) \<times> 's) \<Rightarrow> 's \<Rightarrow> (AppError + PolicyOutcome) \<times> 's" where
  "resolveById user repoFindById repoFindByEmail s =
     (case repoFindById (id_user user) s of
        (Inl e, s') \<Rightarrow> (Inl e, s')
      | (Inr matched, s') \<Rightarrow>
          (case matched of
             Some m \<Rightarrow>
               if updatedAt m \<ge> updatedAt user
               then (Inr (toSkip user (createPolicyError POLICY_STALE_UPDATE
                       ''Incoming record is older than the stored version'' NoCause
                       (StaleDetails (updatedAt m) (updatedAt user)))), s')
               else (Inr (Accept user), s')
           | None \<Rightarrow> resolveByEmail user repoFindByEmail s'))"

definition evaluatePolicies ::
    "User \<Rightarrow> (string \<Rightarrow> bool) option \<Rightarrow> (string \<Rightarrow> 's \<Rightarrow> (AppError + User option) \<times> 's)
     \<Rightarrow> (string \<Rightarrow> 's \<Rightarrow> (AppError + User option) \<times> 's) \<Rightarrow> 's \<Rightarrow> (AppError + PolicyOutcome) \<times> 's" where
  "evaluatePolicies user custom repoFindById repoFindByEmail s =
     (let domain = emailDomain user
      in if isDisposable domain custom
         then (Inr (toSkip user (createPolicyError POLICY_DISPOSABLE_EMAIL
                 ''Disposable email domain is not allowed'' NoCause (DomainDetails domain))), s)
         else resolveById user repoFindById repoFindByEmail s)"


section \<open>Report (app/report.ts)\<close>

text \<open>
  \<open>topDomains\<close> counts the domains in a \<open>Map\<close>, which keeps its keys in insertion order
  (an association list here: \<open>mapSet\<close> overwrites the value of a present key in place and
  appends an absent one), sorts the entries with the comparator \<open>b[1] - a[1]\<close>, and keeps
  the first \<open>limit\<close> of them. \<open>Array.prototype.sort\<close> is stable, so its result is the
  one of the stable insertion sort \<open>sortBy\<close>.
\<close>

record DomainCount =
  domain :: string
  count :: nat

definition reportDomain :: "User \<Rightarrow> string" where
  "reportDomain user = (case split CHR ''@'' (email user) of _ # d # _ \<Rightarrow> d | _ \<Rightarrow> ''unknown'')"

fun mapSet :: "'k \<Rightarrow> 'v \<Rightarrow> ('k \<times> 'v) list \<Rightarrow> ('k \<times> 'v) list" where
  "mapSet k v [] = [(k, v)]"
| "mapSet k v ((k', v') # rest) = (if k' = k then (k, v) # rest else (k', v') # mapSet k v rest)"

definition countDomains :: "User list \<Rightarrow> (string \<times> nat) list" where
  "countDomains users =
     foldl (\<lambda>acc user.
              let domain = reportDomain user;
                  nextCount = (case map_of acc domain of Some c \<Rightarrow> c | None \<Rightarrow> 0) + 1
              in mapSet domain nextCount acc) [] users"

fun insertBy :: "('a \<Rightarrow> 'a \<Rightarrow> int) \<Rightarrow> 'a \<Rightarrow> 'a list \<Rightarrow> 'a list" where
  "insertBy cmp x [] = [x]"
| "insertBy cmp x (y # ys) = (if cmp x y < 0 then x # y # ys else y # insertBy cmp x ys)"

definition sortBy :: "('a \<Rightarrow> 'a \<Rightarrow> int) \<Rightarrow> 'a list \<Rightarrow> 'a list" where
  "sortBy cmp xs = foldl (\<lambda>acc x. insertBy cmp x acc) [] xs"

definition topDomains :: "User list \<Rightarrow> nat \<Rightarrow> DomainCount list" where
  "topDomains users limit =
     map (\<lambda>(d, c). \<lparr>domain = d, count = c\<rparr>)
       (take limit (sortBy (\<lambda>a b. int (snd b) - int (snd a)) (countDomains users)))"

section \<open>Pipeline output and command line exit (app/pipeline.ts, index.ts)\<close>

text \<open>
  The outcome of a run as \<open>runPipeline\<close> returns it, and the command line entry point
  that turns it into the exit code of the process. The results of \<open>createContainer\<close> and
  \<open>runPipeline\<close> are parameters; console and logger calls are returned beside the exit
  code. The field \<open>skipped\<close> of \<open>PipelineStats\<close> is \<open>skippedCount\<close> here and the field
  \<open>successes\<close> of \<open>PipelineOutput\<close> is \<open>successes_out\<close>.
\<close>

datatype Stage = Validation | Persistence

record PipelineErrorRecord =
  stage :: Stage
  error :: AppError

record PipelineStats =
  total :: nat
  validated :: nat
  persisted :: nat
  skippedCount :: nat
  failed :: nat

record PipelineOutput =
  report :: string
  stats :: PipelineStats
  errors :: "PipelineErrorRecord list"
  skipped :: "(User \<times> AppError) list"
  successes_out :: "User list"

datatype ExitKind = Success | Partial

datatype CliEffect =
  ConsoleLog string
  | ConsoleError string
  | LoggerInfo nat
  | LoggerWarn nat nat
  | LoggerError ErrorCode AppErrorType

definition exitKinds :: "ExitKind list" where
  "exitKinds = [Success, Partial]"

definition classifyExit :: "nat \<Rightarrow> ExitKind" where
  "classifyExit errorsCount =
     exitKinds ! nat (min 1 (max 0 (if errorsCount > 0 then (1::int) else 0)))"

definition exitHandlers :: "PipelineOutput \<Rightarrow> ExitKind \<Rightarrow> int \<times> CliEffect list" where
  "exitHandlers output kind =
     (case kind of
        Success \<Rightarrow> (0, [LoggerInfo (persisted (stats output))])
      | Partial \<Rightarrow> (2, [LoggerWarn (length (errors output)) (length (skipped output))]))"

definition executePipeline ::
    "'o \<Rightarrow> (AppError + 'c) \<Rightarrow> ('o \<Rightarrow> 'c \<Rightarrow> AppError + PipelineOutput) \<Rightarrow> int \<times> CliEffect list" where
  "executePipeline options container runPipeline =
     (case container of
        Inl e \<Rightarrow> (1, [ConsoleError (message e)])
      | Inr c \<Rightarrow>
          (case runPipeline options c of
             Inr output \<Rightarrow>
               (let kind = classifyExit (length (errors output));
                    (exitCode, effects) = exitHandlers output kind
                in (exitCode, ConsoleLog (report output) # effects))
           | Inl e \<Rightarrow> (1, [LoggerError (code e) (errType e), ConsoleError (message e)])))"

subsection \<open>Argument parsing and the entry point\<close>

text \<open>
  A JavaScript evaluation either returns a value or throws.
\<close>

datatype 'a Completion = Returns 'a | Throws string

text \<open>
  \<open>walk\<close> and \<open>takeNextArgument\<close> call \<open>Result.fromNullable\<close>. The \<open>Result\<close> namespace
  that neverthrow exports has the members \<open>fromThrowable\<close>, \<open>combine\<close> and
  \<open>combineWithAllErrors\<close>, and no file of the repository adds a \<open>fromNullable\<close> to it:
  the member is \<open>undefined\<close>, and calling it throws a \<open>TypeError\<close>, whatever the
  arguments.
\<close>

definition Result_fromNullable :: "AppError \<Rightarrow> 'a option \<Rightarrow> (AppError + 'a) Completion" where
  "Result_fromNullable onNull value = Throws ''TypeError: Result.fromNullable is not a function''"

datatype Source = Stdin | SourcePath string

record CliOptions =
  source :: Source
  idempotencyKey :: "string option"
  failFast :: "bool option"

record ArgContext =
  argv :: "string list"
  index :: nat
  state :: CliOptions

datatype HandlerResult = Continue nat CliOptions | Done CliOptions

definition missingValueError :: "string \<Rightarrow> AppError" where
  "missingValueError flag =
     createParseError CSV_READ_ERROR (''Missing value for '' @ flag) NoCause NoDetails"

definition unknownFlagError :: "string \<Rightarrow> AppError" where
  "unknownFlagError flag =
     createParseError CSV_READ_ERROR (''Unknown CLI argument: '' @ flag) NoCause NoDetails"

text \<open>\<open>array.at(i)\<close> for an index that is not negative.\<close>

definition array_at :: "'a list \<Rightarrow> nat \<Rightarrow> 'a option" where
  "array_at xs i = (if i < length xs then Some (xs ! i) else None)"

definition takeNextArgument :: "string \<Rightarrow> ArgContext \<Rightarrow> (AppError + string) Completion" where
  "takeNextArgument flag context =
     Result_fromNullable (missingValueError flag) (array_at (argv context) (index context + 1))"

definition continueWith :: "CliOptions \<Rightarrow> nat \<Rightarrow> AppError + HandlerResult" where
  "continueWith st nextIndex = Inr (Continue nextIndex st)"

text \<open>
  The handlers of the flags that take a value:
  \<open>takeNextArgument(flag, context).andThen((value) => continueWith(..., context.index + 2))\<close>.
\<close>

definition valueHandler ::
    "string \<Rightarrow> (string \<Rightarrow> CliOptions \<Rightarrow> CliOptions) \<Rightarrow> ArgContext
     \<Rightarrow> (AppError + HandlerResult) Completion" where
  "valueHandler flag assign context =
     (case takeNextArgument flag context of
        Throws t \<Rightarrow> Throws t
      | Returns (Inl e) \<Rightarrow> Returns (Inl e)
      | Returns (Inr value) \<Rightarrow>
          Returns (continueWith (assign value (state context)) (index context + 2)))"

text \<open>The table of handlers; the key \<open>None\<close> is the symbol \<open>doneSymbol\<close>.\<close>

definition handlers ::
    "string option \<Rightarrow> (ArgContext \<Rightarrow> (AppError + HandlerResult) Completion) option" where
  "handlers key =
     (case key of
        None \<Rightarrow> Some (\<lambda>context. Returns (Inr (Done (state context))))
      | Some flag \<Rightarrow>
          if flag = ''--source''
          then Some (valueHandler ''--source'' (\<lambda>value st. st\<lparr>source := SourcePath value\<rparr>))
          else if flag = ''-s''
          then Some (valueHandler ''-s'' (\<lambda>value st. st\<lparr>source := SourcePath value\<rparr>))
          else if flag = ''--idempotency''
          then Some (valueHandler ''--idempotency'' (\<lambda>value st. st\<lparr>idempotencyKey := Some value\<rparr>))
          else if flag = ''-i''
          then Some (valueHandler ''-i'' (\<lambda>value st. st\<lparr>idempotencyKey := Some value\<rparr>))
          else if flag = ''--fail-fast''
          then Some (\<lambda>context. Returns (continueWith ((state context)\<lparr>failFast := Some True\<rparr>)
                                          (index context + 1)))
          else None)"

function walk :: "ArgContext \<Rightarrow> (AppError + CliOptions) Completion" where
  "walk context =
     (let arg = array_at (argv context) (index context);
          handler = handlers arg
      in case Result_fromNullable (unknownFlagError (case arg of Some a \<Rightarrow> a | None \<Rightarrow> [])) handler of
           Throws t \<Rightarrow> Throws t
         | Returns (Inl e) \<Rightarrow> Returns (Inl e)
         | Returns (Inr fn) \<Rightarrow>
             (case fn context of
                Throws t \<Rightarrow> Throws t
              | Returns (Inl e) \<Rightarrow> Returns (Inl e)
              | Returns (Inr (Continue nextIndex st)) \<Rightarrow>
                  walk \<lparr>argv = argv context, index = nextIndex, state = st\<rparr>
              | Returns (Inr (Done st)) \<Rightarrow> Returns (Inr st)))"
  by pat_completeness auto
termination
  by (relation "{}") (simp_all add: Result_fromNullable_def)

definition parseArgs :: "string list \<Rightarrow> (AppError + CliOptions) Completion" where
  "parseArgs args =
     walk \<lparr>argv = args, index = 0,
           state = \<lparr>source = Stdin, idempotencyKey = None, failFast = None\<rparr>\<rparr>"

definition main ::
    "string list \<Rightarrow> (AppError + 'c) \<Rightarrow> (CliOptions \<Rightarrow> 'c \<Rightarrow> AppError + PipelineOutput)
     \<Rightarrow> (int \<times> CliEffect list) Completion" where
  "main args container runPipeline =
     (case parseArgs args of
        Throws t \<Rightarrow> Throws t
      | Returns (Inr options) \<Rightarrow> Returns (executePipeline options container runPipeline)
      | Returns (Inl e) \<Rightarrow> Returns (1, [ConsoleError (message e)]))"

text \<open>
  The last statement of the module, \<open>void main().then(...)\<close>: the exit code of the process
  is the code that \<open>main\<close> resolves to; when \<open>main\<close> throws, the exception is uncaught and
  Node ends the process with exit code 1.
\<close>

definition processExitCode ::
    "string list \<Rightarrow> (AppError + 'c) \<Rightarrow> (CliOptions \<Rightarrow> 'c \<Rightarrow> AppError + PipelineOutput) \<Rightarrow> int" where
  "processExitCode args container runPipeline =
     (case main args container runPipeline of
        Returns (exitCode, effects) \<Rightarrow> exitCode
      | Throws t \<Rightarrow> 1)"

subsection \<open>Observing the attempts of an operation\<close>

text \<open>
  \<open>runAttempts operation a k s\<close> is the state of the operation after \<open>k\<close> consecutive
  invocations numbered \<open>a\<close>, \<open>a + 1\<close>, ... starting in state \<open>s\<close>.
  \<open>counted operation\<close> is the operation with an invocation counter beside its state, the
  way the unit test counts \<open>attempts += 1\<close> inside the operation.
\<close>

primrec runAttempts :: "(int \<Rightarrow> 's \<Rightarrow> (AppError + 'a) \<times> 's) \<Rightarrow> int \<Rightarrow> nat \<Rightarrow> 's \<Rightarrow> 's" where
  "runAttempts operation a 0 s = s"
| "runAttempts operation a (Suc k) s = runAttempts operation (a + 1) k (snd (operation a s))"

definition counted :: "(int \<Rightarrow> 's \<Rightarrow> (AppError + 'a) \<times> 's) \<Rightarrow> int \<Rightarrow> 's \<times> nat \<Rightarrow> (AppError + 'a) \<times> 's \<times> nat" where
  "counted operation a sn = (case operation a (fst sn) of (r, s') \<Rightarrow> (r, s', Suc (snd sn)))"

subsection \<open>Ranking of report entries\<close>

text \<open>
  \<open>firstIndex ds d\<close> is the position at which \<open>d\<close> first appears in \<open>ds\<close>. An entry is
  \<open>ranked\<close> before another when its count is greater, or equal with an earlier first
  appearance of its domain.
\<close>

fun firstIndex :: "'a list \<Rightarrow> 'a \<Rightarrow> nat" where
  "firstIndex [] d = 0"
| "firstIndex (x # xs) d = (if x = d then 0 else Suc (firstIndex xs d))"

abbreviation byCount :: "string \<times> nat \<Rightarrow> string \<times> nat \<Rightarrow> int" where
  "byCount \<equiv> (\<lambda>a b. int (snd b) - int (snd a))"

definition ranked :: "string list \<Rightarrow> string \<times> nat \<Rightarrow> string \<times> nat \<Rightarrow> bool" where
  "ranked ds a b \<longleftrightarrow>
     snd a > snd b \<or> (snd a = snd b \<and> firstIndex ds (fst a) < firstIndex ds (fst b))"

section \<open>Sample data\<close>

text \<open>Users and an empty repository, as the test suites build them.\<close>

definition ada :: User where
  "ada = \<lparr>id_user = ''user-1'', name = ''Ada Lovelace'', email = ''Ada@Example.com'', age = 36, updatedAt = 100\<rparr>"

definition emptyRepo :: "int \<Rightarrow> MemoryUserRepository" where
  "emptyRepo ttl = \<lparr>byId = Map.empty, byEmail = Map.empty, idempotency = Map.empty,
                    idempotencyTtlMs = ttl, logger = []\<rparr>"

definition grace :: User where
  "grace = \<lparr>id_user = ''user-0'', name = ''Grace Hopper'', email = ''grace@example.com'', age = 50, updatedAt = 100\<rparr>"

definition spammer :: User where
  "spammer = \<lparr>id_user = ''user-1'', name = ''Ada Lovelace'', email = ''ada@Mailinator.com'', age = 36, updatedAt = 50\<rparr>"

definition sampleEmails :: "User list" where
  "sampleEmails =
     [\<lparr>id_user = ''1'', name = ''A'', email = ''a@x.com'', age = 30, updatedAt = 0\<rparr>,
      \<lparr>id_user = ''2'', name = ''B'', email = ''b@x.com'', age = 40, updatedAt = 0\<rparr>,
      \<lparr>id_user = ''3'', name = ''C'', email = ''c@y.com'', age = 50, updatedAt = 0\<rparr>]"

definition tiedEmails :: "User list" where
  "tiedEmails =
     [\<lparr>id_user = ''1'', name = ''A'', email = ''a@x.com'', age = 30, updatedAt = 0\<rparr>,
      \<lparr>id_user = ''2'', name = ''B'', email = ''b@y.com'', age = 40, updatedAt = 0\<rparr>,
      \<lparr>id_user = ''3'', name = ''C'', email = ''c@y.com'', age = 50, updatedAt = 0\<rparr>,
      \<lparr>id_user = ''4'', name = ''D'', email = ''d@z.com'', age = 60, updatedAt = 0\<rparr>]"

text \<open>
  A runtime whose \<open>Math.random\<close> is mocked to return 0, as in the retry tests, and whose
  arithmetic is exact.
\<close>

definition mockedRuntime :: Runtime where
  "mockedRuntime = \<lparr>mathRandom = (\<lambda>_. 0), roundDouble = (\<lambda>x. x)\<rparr>"

text \<open>The output of a run over one valid record that was persisted.\<close>

definition cleanOutput :: PipelineOutput where
  "cleanOutput =
     \<lparr>report = ''Import Summary'',
      stats = \<lparr>total = 1, validated = 1, persisted = 1, skippedCount = 0, failed = 0\<rparr>,
      errors = [],
      skipped = [],
      successes_out = [ada\<lparr>email := ''ada@example.com''\<rparr>]\<rparr>"

text \<open>The output of a run over one record that the policy skipped.\<close>

definition skipOnlyOutput :: PipelineOutput where
  "skipOnlyOutput =
     \<lparr>report = ''Import Summary'',
      stats = \<lparr>total = 1, validated = 1, persisted = 0, skippedCount = 1, failed = 0\<rparr>,
      errors = [],
      skipped = [(spammer, createPolicyError POLICY_DISPOSABLE_EMAIL
                   ''Disposable email domain is not allowed'' NoCause (DomainDetails ''Mailinator.com''))],
      successes_out = []\<rparr>"

text \<open>
  A retry executor whose first invocation fails without running the operation and whose
  later invocations run it once; a world with an empty repository.
\<close>

definition failingFirstCall :: "nat RetryFn" where
  "failingFirstCall operation w =
     (if ext w = 0
      then (Inl (createRepoError REPO_WRITE_FAILED ''Failed to persist user'' NoCause NoDetails),
            w\<lparr>ext := 1\<rparr>)
      else operation 1 (w\<lparr>ext := Suc (ext w)\<rparr>))"

definition freshWorld :: "nat BulkWorld" where
  "freshWorld = \<lparr>store = emptyRepo 60000, nowMs = 1000, ext = 0\<rparr>"

section \<open>Verified properties\<close>

subsection \<open>Retry executor\<close>

lemma execute_all_fail:
  assumes fails: "\<And>a s. isl (fst (operation a s))"
  shows "k = nat (maxAttempts options - a) \<Longrightarrow> a \<le> maxAttempts options \<Longrightarrow>
     fst (execute options rt ctx operation a lastE s env)
       = fst (operation (maxAttempts options) (runAttempts operation a k s))
   \<and> fst (snd (execute options rt ctx operation a lastE s env))
       = runAttempts operation a (Suc k) s"
proof (induction k arbitrary: a lastE s env)
  case 0
  then have a: "a = maxAttempts options" by simp
  obtain e s' where op: "operation a s = (Inl e, s')"
    using fails[of a s] by (cases "operation a s") (auto simp: isl_def)
  show ?case using a op by (simp add: Let_def)
next
  case (Suc k)
  then have lt: "a < maxAttempts options" and k: "k = nat (maxAttempts options - (a + 1))"
    by linarith+
  obtain e s' where op: "operation a s = (Inl e, s')"
    using fails[of a s] by (cases "operation a s") (auto simp: isl_def)
  have le: "a + 1 \<le> maxAttempts options" using lt by simp
  note IH = Suc.IH[OF k le]
  show ?case using lt op IH by (simp add: Let_def)
qed

lemma counted_fails: "(\<And>a s. isl (fst (operation a s))) \<Longrightarrow> isl (fst (counted operation a sn))"
  by (simp add: counted_def split: prod.splits) (metis fst_conv)

lemma runAttempts_counted: "snd (runAttempts (counted operation) a k (s, n)) = n + k"
  by (induction k arbitrary: a s n) (simp_all add: counted_def split: prod.splits)

text \<open>
  Claim C2. With \<open>maxAttempts \<ge> 1\<close> and an operation that fails at every attempt, the
  executor returns the error that the attempt numbered \<open>maxAttempts\<close> itself produced
  (not the synthetic "Retry exceeded attempts" error of \<open>execute\<close>), the operation has
  been run for the attempts \<open>1, ..., maxAttempts\<close> in this order and no further, and an
  invocation counter inside the operation ends at exactly \<open>maxAttempts\<close>.
\<close>

theorem retry_all_fail:
  assumes "1 \<le> maxAttempts options" and "\<And>a s. isl (fst (operation a s))"
  shows "fst (createRetryExecutor options rt operation ctx s env)
           = fst (operation (maxAttempts options)
                   (runAttempts operation 1 (nat (maxAttempts options) - 1) s))
       \<and> fst (snd (createRetryExecutor options rt operation ctx s env))
           = runAttempts operation 1 (nat (maxAttempts options)) s
       \<and> snd (fst (snd (createRetryExecutor options rt (counted operation) ctx (s, 0) env)))
           = nat (maxAttempts options)"
proof -
  have k: "nat (maxAttempts options) - 1 = nat (maxAttempts options - 1)" by simp
  have sk: "Suc (nat (maxAttempts options - 1)) = nat (maxAttempts options)" using assms(1) by simp
  have A: "fst (execute options rt ctx operation 1 None s env)
       = fst (operation (maxAttempts options) (runAttempts operation 1 (nat (maxAttempts options - 1)) s))
   \<and> fst (snd (execute options rt ctx operation 1 None s env))
       = runAttempts operation 1 (Suc (nat (maxAttempts options - 1))) s"
    by (rule execute_all_fail[OF assms(2) refl assms(1)])
  have cf: "\<And>a sn. isl (fst (counted operation a sn))" by (rule counted_fails[OF assms(2)])
  have B: "fst (snd (execute options rt ctx (counted operation) 1 None (s, 0) env))
       = runAttempts (counted operation) 1 (Suc (nat (maxAttempts options - 1))) (s, 0)"
    using execute_all_fail[of "counted operation", OF cf refl assms(1)] by blast
  show ?thesis
    unfolding createRetryExecutor_def k using A B sk by (simp add: runAttempts_counted)
qed


lemma counted_counter_mono:
  "k = nat (maxAttempts options + 1 - a) \<Longrightarrow>
   snd sn \<le> snd (fst (snd (execute options rt ctx (counted operation) a lastE sn env)))"
proof (induction k arbitrary: a lastE sn env)
  case 0
  then have "a > maxAttempts options" by simp
  then show ?case by simp
next
  case (Suc k)
  then have le: "a \<le> maxAttempts options" and k: "k = nat (maxAttempts options + 1 - (a + 1))"
    by linarith+
  obtain r s' where op: "operation a (fst sn) = (r, s')" by (cases "operation a (fst sn)")
  then have cop: "counted operation a sn = (r, s', Suc (snd sn))" by (simp add: counted_def)
  show ?case
  proof (cases r)
    case (Inr v)
    then show ?thesis using le cop by (simp add: succeed_def)
  next
    case (Inl e)
    show ?thesis
    proof (cases "a \<ge> maxAttempts options")
      case True
      then show ?thesis using le cop Inl by (simp add: Let_def)
    next
      case False
      have "snd (s', Suc (snd sn)) \<le> snd (fst (snd (execute options rt ctx (counted operation) (a + 1) (Some e) (s', Suc (snd sn))
              (awaitDelay options rt a (env\<lparr>logged := logged env @
                   [RetryAttemptFailed (spanId ctx) (operationName ctx) a (code e) (errType e)]\<rparr>)))))"
        by (rule Suc.IH[OF k])
      then show ?thesis using le cop Inl False by (simp add: Let_def)
    qed
  qed
qed

text \<open>
  Claim C10. With \<open>maxAttempts \<le> 0\<close> the executor never runs the operation (its state
  and the invocation counter are untouched) and returns the synthetic \<open>UnknownError\<close>
  whose cause carries the message "Retry exceeded attempts"; with \<open>maxAttempts \<ge> 1\<close>
  the operation is run at least once. So "at least one attempt is always made" needs
  the precondition \<open>maxAttempts \<ge> 1\<close>.
\<close>

theorem retry_attempts_contract:
  "(maxAttempts options \<le> 0 \<longrightarrow>
      createRetryExecutor options rt operation ctx s env
        = (Inl (wrapUnknown ''Retry exceeded attempts''), s, env)
      \<and> snd (fst (snd (createRetryExecutor options rt (counted operation) ctx (s, 0) env))) = 0
      \<and> errType (wrapUnknown ''Retry exceeded attempts'') = UnknownError
      \<and> cause (wrapUnknown ''Retry exceeded attempts'') = ErrorCause ''Error'' ''Retry exceeded attempts'')
   \<and> (1 \<le> maxAttempts options \<longrightarrow>
      1 \<le> snd (fst (snd (createRetryExecutor options rt (counted operation) ctx (s, 0) env))))"
proof (intro conjI impI)
  assume "maxAttempts options \<le> 0"
  then show "createRetryExecutor options rt operation ctx s env
        = (Inl (wrapUnknown ''Retry exceeded attempts''), s, env)"
    by (simp add: createRetryExecutor_def)
next
  assume "maxAttempts options \<le> 0"
  then show "snd (fst (snd (createRetryExecutor options rt (counted operation) ctx (s, 0) env))) = 0"
    by (simp add: createRetryExecutor_def)
next
  show "errType (wrapUnknown ''Retry exceeded attempts'') = UnknownError"
    by (simp add: wrapUnknown_def createUnknownError_def createFactory_def)
next
  show "cause (wrapUnknown ''Retry exceeded attempts'') = ErrorCause ''Error'' ''Retry exceeded attempts''"
    by (simp add: wrapUnknown_def createUnknownError_def createFactory_def)
next
  assume m: "1 \<le> maxAttempts options"
  obtain r s' where op: "operation 1 s = (r, s')" by (cases "operation 1 s")
  then have cop: "counted operation 1 (s, 0) = (r, s', Suc 0)" by (simp add: counted_def)
  show "1 \<le> snd (fst (snd (createRetryExecutor options rt (counted operation) ctx (s, 0) env)))"
  proof (cases r)
    case (Inr v)
    then show ?thesis using m cop by (simp add: createRetryExecutor_def succeed_def)
  next
    case (Inl e)
    show ?thesis
    proof (cases "1 \<ge> maxAttempts options")
      case True
      then show ?thesis using m cop Inl by (simp add: createRetryExecutor_def Let_def)
    next
      case False
      have "snd (s', Suc 0) \<le> snd (fst (snd (execute options rt ctx (counted operation) (1 + 1) (Some e) (s', Suc 0)
              (awaitDelay options rt 1 (env\<lparr>logged := logged env @
                   [RetryAttemptFailed (spanId ctx) (operationName ctx) 1 (code e) (errType e)]\<rparr>)))))"
        by (rule counted_counter_mono[OF refl])
      then show ?thesis using m cop Inl False by (simp add: createRetryExecutor_def Let_def)
    qed
  qed
qed

theorem retry_all_fail_witness:
  "(1::int) \<le> maxAttempts \<lparr>maxAttempts = 2, baseDelayMs = 1, maxDelayMs = 2, factor = 2\<rparr>
   \<and> fst (createRetryExecutor \<lparr>maxAttempts = 2, baseDelayMs = 1, maxDelayMs = 2, factor = 2\<rparr>
          mockedRuntime
          (\<lambda>a (s::int list). (Inl (createRepoError REPO_WRITE_FAILED ''still failing'' NoCause (IdDetails (replicate (nat a) CHR ''x''))) :: AppError + unit, s @ [a]))
          \<lparr>operationName = None, spanId = None\<rparr> [] \<lparr>logged = [], slept = [], draws = 0\<rparr>)
       = Inl (createRepoError REPO_WRITE_FAILED ''still failing'' NoCause (IdDetails ''xx''))
   \<and> fst (snd (createRetryExecutor \<lparr>maxAttempts = 2, baseDelayMs = 1, maxDelayMs = 2, factor = 2\<rparr>
          mockedRuntime
          (\<lambda>a (s::int list). (Inl (createRepoError REPO_WRITE_FAILED ''still failing'' NoCause (IdDetails (replicate (nat a) CHR ''x''))) :: AppError + unit, s @ [a]))
          \<lparr>operationName = None, spanId = None\<rparr> [] \<lparr>logged = [], slept = [], draws = 0\<rparr>))
       = [1, 2]
   \<and> snd (fst (snd (createRetryExecutor \<lparr>maxAttempts = 2, baseDelayMs = 1, maxDelayMs = 2, factor = 2\<rparr>
          mockedRuntime
          (counted (\<lambda>a (s::int list). (Inl (createRepoError REPO_WRITE_FAILED ''still failing'' NoCause (IdDetails (replicate (nat a) CHR ''x''))) :: AppError + unit, s @ [a])))
          \<lparr>operationName = None, spanId = None\<rparr> ([], 0) \<lparr>logged = [], slept = [], draws = 0\<rparr>)))
       = 2"
  using retry_all_fail [of "\<lparr>maxAttempts = 2, baseDelayMs = 1, maxDelayMs = 2, factor = 2\<rparr>"
          "\<lambda>a (s::int list). (Inl (createRepoError REPO_WRITE_FAILED ''still failing'' NoCause (IdDetails (replicate (nat a) CHR ''x''))) :: AppError + unit, s @ [a])"
          "mockedRuntime" "\<lparr>operationName = None, spanId = None\<rparr>" "[]"
          "\<lparr>logged = [], slept = [], draws = 0\<rparr>"]
  by (simp add: numeral_2_eq_2)

theorem retry_attempts_contract_witness:
  "maxAttempts \<lparr>maxAttempts = 0, baseDelayMs = 1, maxDelayMs = 2, factor = 2\<rparr> \<le> 0
   \<and> createRetryExecutor \<lparr>maxAttempts = 0, baseDelayMs = 1, maxDelayMs = 2, factor = 2\<rparr>
        mockedRuntime (\<lambda>a (s::nat). (Inr ''ok'' :: AppError + string, Suc s))
        \<lparr>operationName = None, spanId = None\<rparr> 0 \<lparr>logged = [], slept = [], draws = 0\<rparr>
      = (Inl (wrapUnknown ''Retry exceeded attempts''), 0, \<lparr>logged = [], slept = [], draws = 0\<rparr>)
   \<and> 1 \<le> maxAttempts \<lparr>maxAttempts = 1, baseDelayMs = 1, maxDelayMs = 2, factor = 2\<rparr>
   \<and> 1 \<le> snd (fst (snd (createRetryExecutor \<lparr>maxAttempts = 1, baseDelayMs = 1, maxDelayMs = 2, factor = 2\<rparr>
        mockedRuntime (counted (\<lambda>a (s::nat). (Inr ''ok'' :: AppError + string, Suc s)))
        \<lparr>operationName = None, spanId = None\<rparr> (0, 0) \<lparr>logged = [], slept = [], draws = 0\<rparr>)))"
  using retry_attempts_contract [of "\<lparr>maxAttempts = 0, baseDelayMs = 1, maxDelayMs = 2, factor = 2\<rparr>"
          "mockedRuntime" "\<lambda>a (s::nat). (Inr ''ok'' :: AppError + string, Suc s)"
          "\<lparr>operationName = None, spanId = None\<rparr>" 0 "\<lparr>logged = [], slept = [], draws = 0\<rparr>"]
        retry_attempts_contract [of "\<lparr>maxAttempts = 1, baseDelayMs = 1, maxDelayMs = 2, factor = 2\<rparr>"
          "mockedRuntime" "\<lambda>a (s::nat). (Inr ''ok'' :: AppError + string, Suc s)"
          "\<lparr>operationName = None, spanId = None\<rparr>" 0 "\<lparr>logged = [], slept = [], draws = 0\<rparr>"]
  by simp

subsection \<open>Backoff delay\<close>

text \<open>
  In the regular case the delay is the rounded product of the draw and the cap, and lies
  between zero and the cap: for a draw in \<open>[0, 1)\<close>, options within the configuration
  contract with \<open>maxDelayMs\<close> a double, and a rounding that is monotone and keeps zero
  and doubles, provided the exponential is a number, that is, unless \<open>baseDelayMs\<close> is
  zero and the power overflows.
\<close>

lemma computeDelay_regular:
  assumes mono: "\<And>x y. x \<le> y \<Longrightarrow> rd x \<le> rd y" and zero: "rd 0 = 0"
    and idem: "\<And>x. rd (rd x) = rd x"
    and maxd: "rd (maxDelayMs options) = maxDelayMs options" "maxDelayMs options < overflowBound"
    and contract: "0 \<le> maxDelayMs options" "0 \<le> baseDelayMs options" "1 \<le> factor options"
    and draw: "0 \<le> r" "r < 1"
    and number: "\<not> (baseDelayMs options = 0
                    \<and> overflowBound \<le> factor options ^ nat (max 0 (n - 1)))"
  shows "\<exists>c. jsMin (Dbl (maxDelayMs options))
               (jsMul rd (Dbl (baseDelayMs options))
                  (jsPow rd (factor options) (nat (max 0 (n - 1))))) = Dbl c
             \<and> computeDelay rd n options r = Dbl (rd (r * c))
             \<and> 0 \<le> rd (r * c) \<and> rd (r * c) \<le> c \<and> c \<le> maxDelayMs options"
proof -
  let ?p = "factor options ^ nat (max 0 (n - 1))"
  let ?e = "jsMul rd (Dbl (baseDelayMs options)) (jsPow rd (factor options) (nat (max 0 (n - 1))))"
  have bpos: "0 < overflowBound" by (simp add: overflowBound_def)
  have p0: "0 \<le> ?p" using contract(3) by simp
  have cap: "\<exists>c. jsMin (Dbl (maxDelayMs options)) ?e = Dbl c \<and> 0 \<le> c
                \<and> c \<le> maxDelayMs options \<and> rd c = c"
  proof (cases "overflowBound \<le> ?p")
    case True
    then have pw: "jsPow rd (factor options) (nat (max 0 (n - 1))) = Infinity"
      by (simp add: jsPow_def toDouble_def)
    have "baseDelayMs options > 0" using True number contract(2) by auto
    then have "?e = Infinity" by (simp add: pw)
    then show ?thesis using contract(1) maxd(1) by simp
  next
    case False
    then have pw: "jsPow rd (factor options) (nat (max 0 (n - 1))) = Dbl (rd ?p)"
      using p0 bpos by (simp add: jsPow_def toDouble_def)
    have rp0: "0 \<le> rd ?p" using mono[OF p0] zero by simp
    have prod0: "0 \<le> baseDelayMs options * rd ?p" using contract(2) rp0 by simp
    show ?thesis
    proof (cases "overflowBound \<le> baseDelayMs options * rd ?p")
      case True
      then have "?e = Infinity" by (simp add: pw toDouble_def)
      then show ?thesis using contract(1) maxd(1) by simp
    next
      case False
      then have e: "?e = Dbl (rd (baseDelayMs options * rd ?p))"
        using prod0 bpos by (simp add: pw toDouble_def)
      have e0: "0 \<le> rd (baseDelayMs options * rd ?p)" using mono[OF prod0] zero by simp
      show ?thesis
        using e e0 contract(1) maxd(1) idem by (simp add: min_def)
    qed
  qed
  then obtain c where c: "jsMin (Dbl (maxDelayMs options)) ?e = Dbl c" "0 \<le> c"
      "c \<le> maxDelayMs options" "rd c = c"
    by blast
  have rc0: "0 \<le> r * c" using draw(1) c(2) by simp
  have "r * c \<le> 1 * c" using draw(2) c(2) by (intro mult_right_mono) simp_all
  then have rcc: "r * c \<le> c" by simp
  have nover: "\<not> overflowBound \<le> r * c" using rcc c(3) maxd(2) by simp
  have nunder: "\<not> r * c \<le> - overflowBound" using rc0 bpos by simp
  have d: "computeDelay rd n options r = Dbl (rd (r * c))"
    using c(1) nover nunder by (simp add: computeDelay_def Let_def toDouble_def)
  have lo: "0 \<le> rd (r * c)" using mono[OF rc0] zero by simp
  have hi: "rd (r * c) \<le> c" using mono[OF rcc] c(4) by simp
  show ?thesis using c(1,3) d lo hi by blast
qed

lemma computeDelay_nan:
  "baseDelayMs options = 0 \<Longrightarrow> overflowBound \<le> factor options ^ nat (max 0 (n - 1)) \<Longrightarrow>
   computeDelay rd n options r = NaN"
  by (simp add: computeDelay_def Let_def jsPow_def toDouble_def)

text \<open>
  Claim C7 at failing inputs. With \<open>baseDelayMs = 0\<close>, the power overflows to infinity at
  attempt 1025 with \<open>factor = 2\<close>, and at attempt 3 with \<open>factor = 10^200\<close>; zero times
  infinity is \<open>NaN\<close>, which \<open>Math.min\<close> and the product with the draw keep. The delay is
  \<open>NaN\<close> for every draw and every rounding, and \<open>0 <= delay\<close> and \<open>delay <= cap\<close> are
  both false, where the cap the claim names is \<open>min(3000, 0) = 0\<close>. An executor with
  these options and an operation that keeps failing passes \<open>NaN\<close> to the timer after the
  third attempt.
\<close>

theorem computeDelay_overflow_nan:
  "computeDelay rd 1025 \<lparr>maxAttempts = 1026, baseDelayMs = 0, maxDelayMs = 3000, factor = 2\<rparr> r = NaN
   \<and> computeDelay rd 3 \<lparr>maxAttempts = 4, baseDelayMs = 0, maxDelayMs = 3000, factor = 10 ^ 200\<rparr> r = NaN
   \<and> \<not> jsLe (Dbl 0)
         (computeDelay rd 1025 \<lparr>maxAttempts = 1026, baseDelayMs = 0, maxDelayMs = 3000, factor = 2\<rparr> r)
   \<and> \<not> jsLe (computeDelay rd 1025
                \<lparr>maxAttempts = 1026, baseDelayMs = 0, maxDelayMs = 3000, factor = 2\<rparr> r)
         (Dbl 0)
   \<and> slept (snd (snd (createRetryExecutor
              \<lparr>maxAttempts = 4, baseDelayMs = 0, maxDelayMs = 3000, factor = 10 ^ 200\<rparr> rt
              (\<lambda>a (s::unit). (Inl (createRepoError REPO_WRITE_FAILED ''still failing''
                                       NoCause NoDetails) :: AppError + unit, s))
              \<lparr>operationName = None, spanId = None\<rparr> ()
              \<lparr>logged = [], slept = [], draws = 0\<rparr>))) ! 2 = NaN"
proof -
  have o1: "overflowBound
              \<le> factor \<lparr>maxAttempts = 1026, baseDelayMs = 0, maxDelayMs = 3000, factor = 2\<rparr>
                  ^ nat (max 0 (1025 - 1))"
    by (simp add: overflowBound_def)
  have o2: "overflowBound
              \<le> factor \<lparr>maxAttempts = 4, baseDelayMs = 0, maxDelayMs = 3000, factor = 10 ^ 200\<rparr>
                  ^ nat (max 0 (3 - 1))"
    by (simp add: overflowBound_def)
  have n1: "computeDelay rd 1025
              \<lparr>maxAttempts = 1026, baseDelayMs = 0, maxDelayMs = 3000, factor = 2\<rparr> r = NaN"
    by (rule computeDelay_nan[OF _ o1]) simp
  have n2: "computeDelay rd 3
              \<lparr>maxAttempts = 4, baseDelayMs = 0, maxDelayMs = 3000, factor = 10 ^ 200\<rparr> r = NaN"
    by (rule computeDelay_nan[OF _ o2]) simp
  have n3: "\<And>d. computeDelay (roundDouble rt) 3
              \<lparr>maxAttempts = 4, baseDelayMs = 0, maxDelayMs = 3000, factor = 10 ^ 200\<rparr> d = NaN"
    by (rule computeDelay_nan[OF _ o2]) simp
  have ex: "slept (snd (snd (createRetryExecutor
              \<lparr>maxAttempts = 4, baseDelayMs = 0, maxDelayMs = 3000, factor = 10 ^ 200\<rparr> rt
              (\<lambda>a (s::unit). (Inl (createRepoError REPO_WRITE_FAILED ''still failing''
                                       NoCause NoDetails) :: AppError + unit, s))
              \<lparr>operationName = None, spanId = None\<rparr> ()
              \<lparr>logged = [], slept = [], draws = 0\<rparr>))) ! 2 = NaN"
    by (simp add: createRetryExecutor_def Let_def awaitDelay_def n3 nth_append del: power_numeral)
  show ?thesis unfolding n1 n2 using ex by simp
qed

subsection \<open>Policy evaluation\<close>

lemma cloneUser_id [simp]: "cloneUser u = u"
  by (simp add: cloneUser_def)

text \<open>
  Claim C4. For a user whose email domain is not disposable and whose id is in the store:
  policy evaluation skips it with \<open>POLICY_STALE_UPDATE\<close> when its \<open>updatedAt\<close> is less than
  or equal to the stored one (a tie goes to the stored record) and accepts it when it is
  strictly greater; the store is left as it was.
\<close>

theorem stale_tie_break:
  assumes "\<not> isDisposable (emailDomain user) custom"
    and "byId repo (id_user user) = Some stored"
  shows "evaluatePolicies user custom findById findByEmail repo
           = (Inr (if updatedAt user \<le> updatedAt stored
                   then Skip user (createPolicyError POLICY_STALE_UPDATE
                          ''Incoming record is older than the stored version'' NoCause
                          (StaleDetails (updatedAt stored) (updatedAt user)))
                   else Accept user), repo)"
  using assms
  by (simp add: evaluatePolicies_def resolveById_def findById_def toSkip_def Let_def)

text \<open>
  Claim C5. A user whose email domain is disposable is skipped with
  \<open>POLICY_DISPOSABLE_EMAIL\<close> whatever the lookups of the repository would answer, and the
  state the lookups act on is returned untouched: no lookup has been made.
\<close>

theorem disposable_first:
  assumes "isDisposable (emailDomain user) custom"
  shows "evaluatePolicies user custom repoFindById repoFindByEmail s
           = (Inr (Skip user (createPolicyError POLICY_DISPOSABLE_EMAIL
                     ''Disposable email domain is not allowed'' NoCause
                     (DomainDetails (emailDomain user)))), s)"
  using assms by (simp add: evaluatePolicies_def toSkip_def Let_def)

subsection \<open>In-memory repository\<close>

lemma upsert_cases:
  "upsert user key now repo =
     (if replayEligible user key now repo \<and> byId repo (id_user user) \<noteq> None
      then (Inr (the (byId repo (id_user user))),
            repo\<lparr>logger := logger repo @ [IdempotentReplay key (id_user user)]\<rparr>)
      else (Inr (fst (persistFresh user key now repo)), snd (persistFresh user key now repo)))"
  by (auto simp add: upsert_def cached_def split: option.splits prod.splits)

lemma persistFresh_byId:
  "byId (snd (persistFresh user key now repo))
     = (byId repo)(id_user user \<mapsto> user\<lparr>email := toLowerCase (email user)\<rparr>)"
  by (simp add: persistFresh_def Let_def persistIdempotency_def split: option.splits)

lemma persistFresh_byEmail:
  "byEmail (snd (persistFresh user key now repo))
     = (byEmail repo)(toLowerCase (email user) \<mapsto> id_user user)"
  by (simp add: persistFresh_def Let_def persistIdempotency_def split: option.splits)

lemma persistFresh_fst:
  "fst (persistFresh user key now repo) = user\<lparr>email := toLowerCase (email user)\<rparr>"
  by (simp add: persistFresh_def Let_def)

lemma persistFresh_idem_nokey:
  "truthyKey key = None \<Longrightarrow> idempotency (snd (persistFresh user key now repo)) = idempotency repo"
  by (simp add: persistFresh_def Let_def)

lemma persistFresh_idem_key:
  "truthyKey key = Some k \<Longrightarrow>
   idempotency (snd (persistFresh user key now repo)) k
     = (if entryActive (idempotency repo k) now
        then map_option (\<lambda>e. e\<lparr>userIds := insert (id_user user) (userIds e)\<rparr>) (idempotency repo k)
        else Some \<lparr>expiresAt = now + idempotencyTtlMs repo, userIds = {id_user user}\<rparr>)"
  by (auto simp add: persistFresh_def Let_def persistIdempotency_def entryActive_def split: option.splits)


lemma replay_keeps_maps:
  assumes "replayEligible user key now repo" and "byId repo (id_user user) = Some stored"
  shows "upsert user key now repo
           = (Inr stored, repo\<lparr>logger := logger repo @ [IdempotentReplay key (id_user user)]\<rparr>)"
  using assms by (simp add: upsert_cases)

lemma fresh_registers_member:
  assumes "truthyKey key = Some k"
  shows "\<exists>e. idempotency (snd (persistFresh user key now repo)) k = Some e
             \<and> id_user user \<in> userIds e"
proof (cases "entryActive (idempotency repo k) now")
  case True
  then obtain e0 where "idempotency repo k = Some e0"
    by (auto simp add: entryActive_def split: option.splits)
  then show ?thesis using True assms by (simp add: persistFresh_idem_key)
next
  case False
  then show ?thesis using assms by (simp add: persistFresh_idem_key)
qed

lemma active_member_replay:
  assumes "truthyKey key = Some k" and "idempotency repo k = Some e"
    and "id_user user \<in> userIds e" and "entryActive (idempotency repo k) now"
  shows "replayEligible user key now repo"
  using assms by (auto simp add: replayEligible_def entryActive_def Let_def split: if_splits)

lemma replayEligible_truthy:
  "replayEligible user key now repo \<Longrightarrow> \<exists>k e. truthyKey key = Some k \<and> idempotency repo k = Some e
      \<and> id_user user \<in> userIds e"
  by (auto simp add: replayEligible_def Let_def split: option.splits if_splits)

lemma truthyKey_Some: "truthyKey (Some k) = Some k' \<Longrightarrow> k' = k"
  by (simp add: truthyKey_def split: if_splits)

text \<open>
  After a first write under a non-empty key that had no active entry, the key's entry is
  active at every time before \<open>now + ttl\<close>.
\<close>

lemma fresh_entry_active:
  assumes "k \<noteq> []" and "\<not> entryActive (idempotency repo k) now1"
    and "now2 < now1 + idempotencyTtlMs repo" and "now1 + idempotencyTtlMs repo \<noteq> 0"
  shows "entryActive (idempotency (snd (upsert user (Some k) now1 repo)) k) now2"
proof -
  have tk: "truthyKey (Some k) = Some k" using assms(1) by (simp add: truthyKey_def)
  have "\<not> replayEligible user (Some k) now1 repo"
    using assms(2) tk by (auto simp add: replayEligible_def entryActive_def Let_def split: option.splits if_splits)
  then have "snd (upsert user (Some k) now1 repo) = snd (persistFresh user (Some k) now1 repo)"
    by (simp add: upsert_cases)
  then show ?thesis
    using persistFresh_idem_key[OF tk, of user now1 repo] assms(2,3,4)
    by (simp add: entryActive_def)
qed

text \<open>
  Claim C1. Upsert a user under a key, then upsert the same user under the same key while
  the key's idempotency entry is still active (within the TTL): the second call returns
  the user stored under that id and leaves the id map, the email map and the idempotency
  map exactly as they were, so \<open>findById\<close> answers the same version before and after it.
\<close>

theorem idempotent_replay:
  assumes first: "upsert user (Some k) now1 repo = (r1, repo1)"
    and live: "entryActive (idempotency repo1 k) now2"
  shows "\<exists>stored. byId repo1 (id_user user) = Some stored
           \<and> fst (upsert user (Some k) now2 repo1) = Inr stored
           \<and> byId (snd (upsert user (Some k) now2 repo1)) = byId repo1
           \<and> byEmail (snd (upsert user (Some k) now2 repo1)) = byEmail repo1
           \<and> idempotency (snd (upsert user (Some k) now2 repo1)) = idempotency repo1
           \<and> fst (findById (id_user user) repo1) = Inr (Some stored)
           \<and> fst (findById (id_user user) (snd (upsert user (Some k) now2 repo1))) = Inr (Some stored)"
proof -
  let ?key = "Some k"
  let ?low = "user\<lparr>email := toLowerCase (email user)\<rparr>"
  have second_replay: "?thesis"
    if el: "replayEligible user ?key now2 repo1" and st: "byId repo1 (id_user user) = Some stored"
    for stored
    using replay_keeps_maps[OF el st] st by (simp add: findById_def)
  show ?thesis
  proof (cases "replayEligible user ?key now1 repo \<and> byId repo (id_user user) \<noteq> None")
    case True
    then obtain stored where st: "byId repo (id_user user) = Some stored" by auto
    have r1: "repo1 = repo\<lparr>logger := logger repo @ [IdempotentReplay ?key (id_user user)]\<rparr>"
      using first replay_keeps_maps[of user ?key now1 repo stored] True st by simp
    obtain k' e where ke: "truthyKey ?key = Some k'" "idempotency repo k' = Some e"
        "id_user user \<in> userIds e"
      using replayEligible_truthy True by blast
    have kk: "k' = k" using ke(1) by (rule truthyKey_Some)
    have "replayEligible user ?key now2 repo1"
      using active_member_replay[of ?key k repo1 e user now2] ke live kk r1 by simp
    moreover have "byId repo1 (id_user user) = Some stored" using r1 st by simp
    ultimately show ?thesis by (rule second_replay)
  next
    case False
    then have r1: "repo1 = snd (persistFresh user ?key now1 repo)"
      using first by (simp add: upsert_cases split: if_splits)
    have st: "byId repo1 (id_user user) = Some ?low"
      by (simp add: r1 persistFresh_byId)
    have em: "byEmail repo1 (toLowerCase (email user)) = Some (id_user user)"
      by (simp add: r1 persistFresh_byEmail)
    show ?thesis
    proof (cases "replayEligible user ?key now2 repo1")
      case True
      then show ?thesis using st by (rule second_replay)
    next
      case nre: False
      have nokey: "truthyKey ?key = None"
      proof (rule ccontr)
        assume "truthyKey ?key \<noteq> None"
        then obtain k' where tk: "truthyKey ?key = Some k'" by auto
        then have kk: "k' = k" by (rule truthyKey_Some)
        obtain e where "idempotency repo1 k = Some e" "id_user user \<in> userIds e"
          using fresh_registers_member[OF tk, of user now1 repo] r1 kk by auto
        then have "replayEligible user ?key now2 repo1"
          using active_member_replay[of ?key k repo1 e user now2] tk kk live by simp
        then show False using nre by simp
      qed
      have up: "upsert user ?key now2 repo1
                  = (Inr (fst (persistFresh user ?key now2 repo1)), snd (persistFresh user ?key now2 repo1))"
        using nre by (simp add: upsert_cases)
      have b1: "byId (snd (persistFresh user ?key now2 repo1)) = byId repo1"
        using st by (simp add: persistFresh_byId fun_upd_idem)
      have b2: "byEmail (snd (persistFresh user ?key now2 repo1)) = byEmail repo1"
        using em by (simp add: persistFresh_byEmail fun_upd_idem)
      have b3: "idempotency (snd (persistFresh user ?key now2 repo1)) = idempotency repo1"
        using nokey by (rule persistFresh_idem_nokey)
      show ?thesis using up b1 b2 b3 st by (simp add: persistFresh_fst findById_def)
    qed
  qed
qed

text \<open>
  Claim C6, amended. A non-replay upsert under a non-empty key: when the key has an active
  entry, the user's id is added to that entry and the entry keeps its \<open>expiresAt\<close>; when
  the key has no entry or an expired one, the entry becomes a fresh one with
  \<open>expiresAt = now + ttl\<close> whose only member is this id. Entries of other keys stay.
\<close>

theorem idempotency_registration:
  assumes "k \<noteq> []" and "cached user (Some k) now repo = None"
  shows "(entryActive (idempotency repo k) now \<longrightarrow>
            (\<exists>e. idempotency repo k = Some e
               \<and> idempotency (snd (upsert user (Some k) now repo)) k
                   = Some (e\<lparr>userIds := insert (id_user user) (userIds e)\<rparr>)))
       \<and> (\<not> entryActive (idempotency repo k) now \<longrightarrow>
            idempotency (snd (upsert user (Some k) now repo)) k
              = Some \<lparr>expiresAt = now + idempotencyTtlMs repo, userIds = {id_user user}\<rparr>)
       \<and> (\<forall>k'. k' \<noteq> k \<longrightarrow>
            idempotency (snd (upsert user (Some k) now repo)) k' = idempotency repo k')"
proof -
  have tk: "truthyKey (Some k) = Some k" using assms(1) by (simp add: truthyKey_def)
  have up: "snd (upsert user (Some k) now repo) = snd (persistFresh user (Some k) now repo)"
    using assms(2) by (simp add: upsert_def split: prod.splits)
  have other: "\<forall>k'. k' \<noteq> k \<longrightarrow>
      idempotency (snd (persistFresh user (Some k) now repo)) k' = idempotency repo k'"
    using tk by (auto simp add: persistFresh_def Let_def persistIdempotency_def split: option.splits)
  have act: "entryActive (idempotency repo k) now \<Longrightarrow> \<exists>e. idempotency repo k = Some e"
    by (auto simp add: entryActive_def split: option.splits)
  show ?thesis
    unfolding up using persistFresh_idem_key[OF tk, of user now repo] other act by auto
qed


lemma lower_ada: "toLowerCase ''Ada@Example.com'' = ''ada@example.com''"
  by code_simp

lemma dom_ada: "emailDomain ada = ''Example.com''"
  by code_simp

lemma nd_ada: "\<not> isDisposable (emailDomain ada) None"
  by code_simp

theorem idempotent_replay_witness:
  "entryActive (idempotency (snd (upsert ada (Some ''batch-1'') 1000 (emptyRepo 60000))) ''batch-1'') 2000
   \<and> fst (upsert ada (Some ''batch-1'') 2000 (snd (upsert ada (Some ''batch-1'') 1000 (emptyRepo 60000))))
       = Inr (ada\<lparr>email := ''ada@example.com''\<rparr>)
   \<and> byId (snd (upsert ada (Some ''batch-1'') 2000 (snd (upsert ada (Some ''batch-1'') 1000 (emptyRepo 60000)))))
       = byId (snd (upsert ada (Some ''batch-1'') 1000 (emptyRepo 60000)))"
proof -
  let ?r1 = "snd (upsert ada (Some ''batch-1'') 1000 (emptyRepo 60000))"
  have first: "upsert ada (Some ''batch-1'') 1000 (emptyRepo 60000)
                 = (fst (upsert ada (Some ''batch-1'') 1000 (emptyRepo 60000)), ?r1)" by simp
  have live: "entryActive (idempotency ?r1 ''batch-1'') 2000"
    by (simp add: upsert_def cached_def replayEligible_def truthyKey_def emptyRepo_def
        persistFresh_def persistIdempotency_def entryActive_def Let_def)
  have st: "byId ?r1 (id_user ada) = Some (ada\<lparr>email := ''ada@example.com''\<rparr>)"
    by (simp add: upsert_def cached_def replayEligible_def truthyKey_def emptyRepo_def
        persistFresh_def persistIdempotency_def entryActive_def Let_def cloneUser_def lower_ada ada_def)
  show ?thesis using idempotent_replay[OF first live] live st by auto
qed


lemma upsert_eval:
  "upsert user key now repo =
    (if replayEligible user key now repo \<and> byId repo (id_user user) \<noteq> None
     then (Inr (the (byId repo (id_user user))),
            repo\<lparr>logger := logger repo @ [IdempotentReplay key (id_user user)]\<rparr>)
     else (Inr (user\<lparr>email := toLowerCase (email user)\<rparr>),
           (case truthyKey key of None \<Rightarrow> (\<lambda>r. r) | Some k \<Rightarrow> persistIdempotency k (id_user user) now)
             (repo\<lparr>byId := (byId repo)(id_user user \<mapsto> user\<lparr>email := toLowerCase (email user)\<rparr>),
                    byEmail := (byEmail repo)(toLowerCase (email user) \<mapsto> id_user user)\<rparr>)))"
  by (auto simp add: upsert_cases persistFresh_def Let_def split: option.splits)

lemmas repo_eval = upsert_eval replayEligible_def truthyKey_def emptyRepo_def
  persistIdempotency_def entryActive_def Let_def

theorem stale_tie_break_witness:
  "evaluatePolicies ada None findById findByEmail (snd (upsert ada None 1000 (emptyRepo 60000)))
     = (Inr (Skip ada (createPolicyError POLICY_STALE_UPDATE
                ''Incoming record is older than the stored version'' NoCause (StaleDetails 100 100))),
        snd (upsert ada None 1000 (emptyRepo 60000)))
   \<and> evaluatePolicies (ada\<lparr>updatedAt := 101\<rparr>) None findById findByEmail
        (snd (upsert ada None 1000 (emptyRepo 60000)))
     = (Inr (Accept (ada\<lparr>updatedAt := 101\<rparr>)), snd (upsert ada None 1000 (emptyRepo 60000)))"
proof -
  let ?repo = "snd (upsert ada None 1000 (emptyRepo 60000))"
  let ?stored = "ada\<lparr>email := toLowerCase (email ada)\<rparr>"
  have st: "byId ?repo (id_user ada) = Some ?stored"
    by (simp add: repo_eval)
  have st': "byId ?repo (id_user (ada\<lparr>updatedAt := 101\<rparr>)) = Some ?stored"
    using st by simp
  have nd': "\<not> isDisposable (emailDomain (ada\<lparr>updatedAt := 101\<rparr>)) None"
    using nd_ada by (simp add: emailDomain_def)
  show ?thesis
    using stale_tie_break[OF nd_ada st] stale_tie_break[OF nd' st']
    by (simp add: ada_def)
qed

lemma d_spammer: "isDisposable (emailDomain spammer) None"
  by code_simp

theorem disposable_first_witness:
  "byId (snd (upsert ada None 1000 (emptyRepo 60000))) (id_user spammer)
     = Some (ada\<lparr>email := ''ada@example.com''\<rparr>)
   \<and> updatedAt spammer \<le> updatedAt (ada\<lparr>email := ''ada@example.com''\<rparr>)
   \<and> evaluatePolicies spammer None findById findByEmail (snd (upsert ada None 1000 (emptyRepo 60000)))
     = (Inr (Skip spammer (createPolicyError POLICY_DISPOSABLE_EMAIL
                ''Disposable email domain is not allowed'' NoCause (DomainDetails ''Mailinator.com''))),
        snd (upsert ada None 1000 (emptyRepo 60000)))"
proof -
  have dm: "emailDomain spammer = ''Mailinator.com''" by code_simp
  have st: "byId (snd (upsert ada None 1000 (emptyRepo 60000))) (id_user spammer)
     = Some (ada\<lparr>email := ''ada@example.com''\<rparr>)"
    by (simp add: repo_eval lower_ada ada_def spammer_def)
  show ?thesis
    using disposable_first[OF d_spammer, of findById findByEmail "snd (upsert ada None 1000 (emptyRepo 60000))"] st
    by (simp add: dm) (simp add: ada_def spammer_def)
qed

text \<open>
  Claim C6 as stated fails: a non-replay upsert at time 90 under a key whose entry is
  active until 100, with a TTL of 50, leaves the expiry at 100 instead of 140.
\<close>

theorem registration_expiry_counterexample:
  "cached ada (Some ''batch-1'') 90 (snd (upsert grace (Some ''batch-1'') 50 (emptyRepo 50))) = None
   \<and> map_option expiresAt
        (idempotency (snd (upsert ada (Some ''batch-1'') 90
                        (snd (upsert grace (Some ''batch-1'') 50 (emptyRepo 50))))) ''batch-1'')
       = Some 100
   \<and> map_option expiresAt
        (idempotency (snd (upsert ada (Some ''batch-1'') 90
                        (snd (upsert grace (Some ''batch-1'') 50 (emptyRepo 50))))) ''batch-1'')
       \<noteq> Some (90 + idempotencyTtlMs (snd (upsert grace (Some ''batch-1'') 50 (emptyRepo 50))))"
  by (simp add: cached_def repo_eval ada_def grace_def)

theorem idempotency_registration_witness:
  "''batch-1'' \<noteq> []
   \<and> cached ada (Some ''batch-1'') 90 (snd (upsert grace (Some ''batch-1'') 50 (emptyRepo 50))) = None
   \<and> entryActive (idempotency (snd (upsert grace (Some ''batch-1'') 50 (emptyRepo 50))) ''batch-1'') 90
   \<and> idempotency (snd (upsert ada (Some ''batch-1'') 90
                        (snd (upsert grace (Some ''batch-1'') 50 (emptyRepo 50))))) ''batch-1''
       = Some \<lparr>expiresAt = 100, userIds = {''user-1'', ''user-0''}\<rparr>
   \<and> \<not> entryActive (idempotency (snd (upsert grace (Some ''batch-1'') 50 (emptyRepo 50))) ''batch-1'') 100
   \<and> cached ada (Some ''batch-1'') 100 (snd (upsert grace (Some ''batch-1'') 50 (emptyRepo 50))) = None
   \<and> idempotency (snd (upsert ada (Some ''batch-1'') 100
                        (snd (upsert grace (Some ''batch-1'') 50 (emptyRepo 50))))) ''batch-1''
       = Some \<lparr>expiresAt = 150, userIds = {''user-1''}\<rparr>"
proof -
  let ?repo = "snd (upsert grace (Some ''batch-1'') 50 (emptyRepo 50))"
  have k: "''batch-1'' \<noteq> []" by simp
  have c90: "cached ada (Some ''batch-1'') 90 ?repo = None"
    by (simp add: cached_def repo_eval ada_def grace_def)
  have c100: "cached ada (Some ''batch-1'') 100 ?repo = None"
    by (simp add: cached_def repo_eval ada_def grace_def)
  have a90: "entryActive (idempotency ?repo ''batch-1'') 90"
    by (simp add: repo_eval)
  have a100: "\<not> entryActive (idempotency ?repo ''batch-1'') 100"
    by (simp add: repo_eval)
  have e: "idempotency ?repo ''batch-1'' = Some \<lparr>expiresAt = 100, userIds = {''user-0''}\<rparr>"
    by (simp add: repo_eval grace_def)
  have t: "idempotencyTtlMs ?repo = 50"
    by (simp add: repo_eval)
  show ?thesis
    using idempotency_registration[OF k c90] idempotency_registration[OF k c100] c90 c100 a90 a100 e t
    by (simp add: ada_def)
qed

subsection \<open>Report\<close>

lemma map_fst_mapSet:
  "map fst (mapSet k v m) = (if k \<in> fst ` set m then map fst m else map fst m @ [k])"
  by (induction m) (force+)

lemma map_of_mapSet: "map_of (mapSet k v m) = (map_of m)(k \<mapsto> v)"
  by (induction m) (auto simp add: fun_eq_iff)

lemma firstIndex_less: "d \<in> set ds \<Longrightarrow> firstIndex ds d < length ds"
  by (induction ds) auto

lemma firstIndex_append_mem: "d \<in> set ds \<Longrightarrow> firstIndex (ds @ es) d = firstIndex ds d"
  by (induction ds) auto

lemma firstIndex_append_new: "d \<notin> set ds \<Longrightarrow> firstIndex (ds @ [d]) d = length ds"
  by (induction ds) auto

lemma countDomains_snoc:
  "countDomains (users @ [user]) =
     mapSet (reportDomain user)
       ((case map_of (countDomains users) (reportDomain user) of Some c \<Rightarrow> c | None \<Rightarrow> 0) + 1)
       (countDomains users)"
  by (simp add: countDomains_def Let_def)

lemma countDomains_inv:
  "set (map fst (countDomains users)) = set (map reportDomain users)
   \<and> distinct (map fst (countDomains users))
   \<and> (\<forall>d \<in> set (map reportDomain users).
         map_of (countDomains users) d = Some (count_list (map reportDomain users) d))
   \<and> sorted_wrt (\<lambda>a b. firstIndex (map reportDomain users) a < firstIndex (map reportDomain users) b)
        (map fst (countDomains users))"
proof (induction users rule: rev_induct)
  case Nil
  show ?case by (simp add: countDomains_def)
next
  case (snoc u us)
  let ?ds = "map reportDomain us"
  let ?d = "reportDomain u"
  let ?C = "countDomains us"
  let ?n = "(case map_of ?C ?d of Some c \<Rightarrow> c | None \<Rightarrow> 0) + 1"
  from snoc.IH have keys: "set (map fst ?C) = set ?ds" and dist: "distinct (map fst ?C)"
    and cnt: "\<forall>d \<in> set ?ds. map_of ?C d = Some (count_list ?ds d)"
    and ord: "sorted_wrt (\<lambda>a b. firstIndex ?ds a < firstIndex ?ds b) (map fst ?C)"
    by blast+
  have keys': "fst ` set ?C = set ?ds" using keys by simp
  have n: "?n = count_list ?ds ?d + 1"
  proof (cases "?d \<in> set ?ds")
    case True
    then have "map_of ?C ?d = Some (count_list ?ds ?d)" using cnt by blast
    then show ?thesis by simp
  next
    case False
    then have "map_of ?C ?d = None" using keys' by (simp add: map_of_eq_None_iff)
    moreover have "count_list ?ds ?d = 0" using False by (simp add: count_list_0_iff)
    ultimately show ?thesis by simp
  qed
  have C': "countDomains (us @ [u]) = mapSet ?d ?n ?C" by (rule countDomains_snoc)
  have k1: "set (map fst (countDomains (us @ [u]))) = set (map reportDomain (us @ [u]))"
    using keys' by (auto simp add: C' map_fst_mapSet)
  have k2: "distinct (map fst (countDomains (us @ [u])))"
    using dist keys' by (auto simp add: C' map_fst_mapSet)
  have k3: "\<forall>d \<in> set (map reportDomain (us @ [u])).
         map_of (countDomains (us @ [u])) d = Some (count_list (map reportDomain (us @ [u])) d)"
    using cnt n by (auto simp add: C' map_of_mapSet)
  have ord': "sorted_wrt (\<lambda>a b. firstIndex (?ds @ [?d]) a < firstIndex (?ds @ [?d]) b) (map fst ?C)"
  proof -
    have "\<And>a b. a \<in> set (map fst ?C) \<Longrightarrow> b \<in> set (map fst ?C) \<Longrightarrow>
        firstIndex ?ds a < firstIndex ?ds b \<Longrightarrow> firstIndex (?ds @ [?d]) a < firstIndex (?ds @ [?d]) b"
      using keys by (simp add: firstIndex_append_mem)
    then show ?thesis using ord by (rule sorted_wrt_mono_rel)
  qed
  have k4: "sorted_wrt (\<lambda>a b. firstIndex (map reportDomain (us @ [u])) a
                              < firstIndex (map reportDomain (us @ [u])) b)
        (map fst (countDomains (us @ [u])))"
  proof (cases "?d \<in> set ?ds")
    case True
    then show ?thesis using ord' keys' by (simp add: C' map_fst_mapSet)
  next
    case False
    have "firstIndex (?ds @ [?d]) a < firstIndex (?ds @ [?d]) ?d" if "a \<in> set (map fst ?C)" for a
    proof -
      have a: "a \<in> set ?ds" using that keys by simp
      have "firstIndex ?ds a < length ?ds" using a by (rule firstIndex_less)
      then show ?thesis using a False by (simp add: firstIndex_append_mem firstIndex_append_new)
    qed
    then have "\<forall>a \<in> set (map fst ?C). firstIndex (?ds @ [?d]) a < firstIndex (?ds @ [?d]) ?d"
      by blast
    then show ?thesis using ord' keys' False
      by (simp add: C' map_fst_mapSet sorted_wrt_append)
  qed
  show ?case using k1 k2 k3 k4 by blast
qed

lemma ranked_fun:
  "ranked ds = (\<lambda>a b. snd a > snd b
                  \<or> (snd a = snd b \<and> firstIndex ds (fst a) < firstIndex ds (fst b)))"
  by (simp add: fun_eq_iff ranked_def)

lemma set_insertBy: "set (insertBy cmp x ys) = insert x (set ys)"
  by (induction ys) auto

lemma length_insertBy: "length (insertBy cmp x ys) = Suc (length ys)"
  by (induction ys) auto

lemma insertBy_ranked:
  assumes "sorted_wrt (ranked ds) acc"
    and "\<forall>y \<in> set acc. firstIndex ds (fst y) < firstIndex ds (fst x)"
  shows "sorted_wrt (ranked ds) (insertBy byCount x acc)"
  using assms
proof (induction acc)
  case Nil
  show ?case by simp
next
  case (Cons y ys)
  show ?case
  proof (cases "byCount x y < 0")
    case True
    then have xy: "snd x > snd y" by simp
    have "\<forall>z \<in> set ys. snd y \<ge> snd z" using Cons.prems(1) by (auto simp add: ranked_def)
    then have "\<forall>z \<in> set (y # ys). ranked ds x z" using xy by (auto simp add: ranked_def)
    then show ?thesis using True Cons.prems(1) by simp
  next
    case False
    then have yx: "snd y \<ge> snd x" by simp
    have "firstIndex ds (fst y) < firstIndex ds (fst x)" using Cons.prems(2) by simp
    then have "ranked ds y x" using yx by (auto simp add: ranked_def)
    moreover have "\<forall>z \<in> set ys. ranked ds y z" using Cons.prems(1) by simp
    moreover have "sorted_wrt (ranked ds) (insertBy byCount x ys)"
      using Cons.IH Cons.prems by simp
    ultimately show ?thesis using False by (simp add: set_insertBy)
  qed
qed

lemma foldl_insertBy_ranked:
  assumes "sorted_wrt (ranked ds) acc"
    and "sorted_wrt (\<lambda>a b. firstIndex ds (fst a) < firstIndex ds (fst b)) xs"
    and "\<forall>y \<in> set acc. \<forall>x \<in> set xs. firstIndex ds (fst y) < firstIndex ds (fst x)"
  shows "sorted_wrt (ranked ds) (foldl (\<lambda>acc x. insertBy byCount x acc) acc xs)"
  using assms
proof (induction xs arbitrary: acc)
  case Nil
  then show ?case by simp
next
  case (Cons x xs)
  have s1: "sorted_wrt (ranked ds) (insertBy byCount x acc)"
    using Cons.prems(1,3) by (intro insertBy_ranked) simp_all
  have s2: "sorted_wrt (\<lambda>a b. firstIndex ds (fst a) < firstIndex ds (fst b)) xs"
    using Cons.prems(2) by simp
  have s3: "\<forall>y \<in> set (insertBy byCount x acc). \<forall>z \<in> set xs.
              firstIndex ds (fst y) < firstIndex ds (fst z)"
    using Cons.prems(2,3) by (auto simp add: set_insertBy)
  show ?case using Cons.IH[OF s1 s2 s3] by simp
qed

lemma set_foldl_insertBy:
  "set (foldl (\<lambda>acc x. insertBy cmp x acc) acc xs) = set acc \<union> set xs"
  by (induction xs arbitrary: acc) (auto simp add: set_insertBy)

lemma length_foldl_insertBy:
  "length (foldl (\<lambda>acc x. insertBy cmp x acc) acc xs) = length acc + length xs"
  by (induction xs arbitrary: acc) (auto simp add: length_insertBy)

lemma set_sortBy: "set (sortBy cmp xs) = set xs"
  by (simp add: sortBy_def set_foldl_insertBy)

lemma length_sortBy: "length (sortBy cmp xs) = length xs"
  by (simp add: sortBy_def length_foldl_insertBy)

lemma sortBy_ranked:
  "sorted_wrt (ranked (map reportDomain users)) (sortBy byCount (countDomains users))"
proof -
  have "sorted_wrt (\<lambda>a b. firstIndex (map reportDomain users) a < firstIndex (map reportDomain users) b)
          (map fst (countDomains users))"
    using countDomains_inv[of users] by blast
  then have "sorted_wrt (\<lambda>a b. firstIndex (map reportDomain users) (fst a)
                              < firstIndex (map reportDomain users) (fst b)) (countDomains users)"
    by (simp add: sorted_wrt_map)
  then show ?thesis unfolding sortBy_def by (intro foldl_insertBy_ranked) simp_all
qed

lemma countDomains_entry:
  assumes "e \<in> set (countDomains users)"
  shows "fst e \<in> set (map reportDomain users)
       \<and> snd e = count_list (map reportDomain users) (fst e)"
proof -
  have mem: "fst e \<in> set (map reportDomain users)"
    using assms countDomains_inv[of users] by (metis image_eqI set_map)
  have "distinct (map fst (countDomains users))" using countDomains_inv[of users] by blast
  then have "map_of (countDomains users) (fst e) = Some (snd e)" using assms by simp
  moreover have "map_of (countDomains users) (fst e)
                   = Some (count_list (map reportDomain users) (fst e))"
    using mem countDomains_inv[of users] by blast
  ultimately show ?thesis using mem by simp
qed

lemma length_countDomains: "length (countDomains users) = card (set (map reportDomain users))"
proof -
  have d: "distinct (map fst (countDomains users))"
    and k: "set (map fst (countDomains users)) = set (map reportDomain users)"
    using countDomains_inv[of users] by blast+
  have "card (set (map fst (countDomains users))) = length (map fst (countDomains users))"
    using d by (rule distinct_card)
  then show ?thesis unfolding k by simp
qed

text \<open>
  Claim C9. The domain distribution of the report is in descending order of count, and
  entries with equal counts are in the order in which their domains first appear among
  the persisted users; each entry carries the number of persisted users of its domain;
  the list has \<open>limit\<close> entries, or all domains when there are fewer. For the emails
  a@x.com, b@x.com, c@y.com it is x.com: 2, then y.com: 1.
\<close>

theorem topDomains_order:
  "sorted_wrt (\<lambda>a b. count a > count b
                  \<or> (count a = count b
                     \<and> firstIndex (map reportDomain users) (domain a)
                         < firstIndex (map reportDomain users) (domain b)))
     (topDomains users limit)
   \<and> (\<forall>e \<in> set (topDomains users limit).
         domain e \<in> set (map reportDomain users)
         \<and> count e = count_list (map reportDomain users) (domain e))
   \<and> length (topDomains users limit) = min limit (card (set (map reportDomain users)))
   \<and> topDomains sampleEmails 5 = [\<lparr>domain = ''x.com'', count = 2\<rparr>, \<lparr>domain = ''y.com'', count = 1\<rparr>]"
proof (intro conjI)
  let ?S = "sortBy byCount (countDomains users)"
  have "sorted_wrt (ranked (map reportDomain users)) (take limit ?S)"
    using sortBy_ranked[of users] by (rule sorted_wrt_take)
  then show "sorted_wrt (\<lambda>a b. count a > count b
                  \<or> (count a = count b
                     \<and> firstIndex (map reportDomain users) (domain a)
                         < firstIndex (map reportDomain users) (domain b)))
     (topDomains users limit)"
    by (simp add: topDomains_def sorted_wrt_map ranked_fun split_def)
next
  show "\<forall>e \<in> set (topDomains users limit).
         domain e \<in> set (map reportDomain users)
         \<and> count e = count_list (map reportDomain users) (domain e)"
  proof
    fix e assume "e \<in> set (topDomains users limit)"
    then obtain p where p: "p \<in> set (take limit (sortBy byCount (countDomains users)))"
        and e: "e = \<lparr>domain = fst p, count = snd p\<rparr>"
      by (auto simp add: topDomains_def)
    have "p \<in> set (countDomains users)" using p set_sortBy in_set_takeD by fastforce
    then show "domain e \<in> set (map reportDomain users)
         \<and> count e = count_list (map reportDomain users) (domain e)"
      using countDomains_entry[of p users] e by simp
  qed
next
  show "length (topDomains users limit) = min limit (card (set (map reportDomain users)))"
    by (simp add: topDomains_def length_sortBy length_countDomains min.commute)
next
  show "topDomains sampleEmails 5 = [\<lparr>domain = ''x.com'', count = 2\<rparr>, \<lparr>domain = ''y.com'', count = 1\<rparr>]"
    by code_simp
qed

lemma tied_domains: "map reportDomain tiedEmails = [''x.com'', ''y.com'', ''y.com'', ''z.com'']"
  by code_simp

lemma tied_top: "topDomains tiedEmails 5
  = [\<lparr>domain = ''y.com'', count = 2\<rparr>, \<lparr>domain = ''x.com'', count = 1\<rparr>, \<lparr>domain = ''z.com'', count = 1\<rparr>]"
  by code_simp

theorem topDomains_order_witness:
  "topDomains tiedEmails 5
     = [\<lparr>domain = ''y.com'', count = 2\<rparr>, \<lparr>domain = ''x.com'', count = 1\<rparr>, \<lparr>domain = ''z.com'', count = 1\<rparr>]
   \<and> \<lparr>domain = ''x.com'', count = 1\<rparr> \<in> set (topDomains tiedEmails 5)
   \<and> count_list (map reportDomain tiedEmails) ''x.com'' = 1
   \<and> firstIndex (map reportDomain tiedEmails) ''x.com'' < firstIndex (map reportDomain tiedEmails) ''z.com''
   \<and> length (topDomains tiedEmails 5) = 3"
  using topDomains_order[of tiedEmails 5]
  by (simp add: tied_top tied_domains)

subsection \<open>Exit code\<close>

lemma classifyExit_eq: "classifyExit n = (if n > 0 then Partial else Success)"
  by (simp add: classifyExit_def exitKinds_def)

text \<open>
  What \<open>executePipeline\<close> makes of its inputs: 1 when the container or the run fails;
  for a completed run 0 when the list of aggregated errors is empty and 2 otherwise.
  Only the errors are counted: a completed run with a policy skip and no error gives 0.
\<close>

lemma executePipeline_exit_code:
  "(\<forall>e. fst (executePipeline options (Inl e) runPipeline) = 1)
   \<and> (\<forall>e. runPipeline options c = Inl e \<longrightarrow> fst (executePipeline options (Inr c) runPipeline) = 1)
   \<and> (\<forall>output. runPipeline options c = Inr output \<longrightarrow>
         fst (executePipeline options (Inr c) runPipeline) = (if errors output = [] then 0 else 2))"
  by (simp add: executePipeline_def classifyExit_eq exitHandlers_def Let_def)

lemma executePipeline_skip_only:
  "errors skipOnlyOutput = [] \<and> skipped skipOnlyOutput \<noteq> []
   \<and> fst (executePipeline () (Inr ()) (\<lambda>_ _. Inr skipOnlyOutput)) = 0"
  by (simp add: executePipeline_def classifyExit_eq exitHandlers_def Let_def skipOnlyOutput_def)

lemma walk_throws: "walk context = Throws ''TypeError: Result.fromNullable is not a function''"
  by (simp add: Result_fromNullable_def Let_def)

text \<open>
  Claim C8 at a failing input. Every command line makes \<open>parseArgs\<close> throw, in its first
  call of \<open>walk\<close>, so the process ends with exit code 1 whatever the container and the
  run would give. For \<open>--source users.csv\<close> and a run that completes with one record
  persisted, no error and no skip, the exit code is 1, not 0.
\<close>

theorem cli_exit_code_always_one:
  "processExitCode args container runPipeline = 1
   \<and> errors cleanOutput = [] \<and> skipped cleanOutput = []
   \<and> fst (executePipeline opts (Inr ()) (\<lambda>_ _. Inr cleanOutput)) = 0
   \<and> processExitCode [''--source'', ''users.csv''] (Inr ()) (\<lambda>_ _. Inr cleanOutput) \<noteq> 0"
  by (simp add: processExitCode_def main_def parseArgs_def walk_throws cleanOutput_def
      executePipeline_def classifyExit_eq exitHandlers_def Let_def del: walk.simps)

subsection \<open>Bulk persistence\<close>

text \<open>
  The part of claim C3 about the value returned: when the retried upsert of the first
  user fails, the fail-fast call returns that error.
\<close>

lemma failFast_returns_first_error:
  "retry (upsertOp u key) w = (Inl e, w') \<Longrightarrow>
   fst (bulkUpsert retry key True sched (u # rest) w) = Inl e"
  by (simp add: bulkUpsert_def split: prod.splits)

text \<open>
  Claim C3 at a failing input. Two users, \<open>failFast = true\<close>, and an executor that fails
  its first invocation: the call returns the error of the first user, as the chain stops
  there, and still the second user, whom the chain never reached, has been written,
  by the task that the limiter ran for her. This holds for every schedule. The
  processing is not sequential in input order, and it does not stop at the failure.
\<close>

theorem failFast_still_writes_later_entities:
  "fst (bulkUpsert failingFirstCall None True sched [ada, grace] freshWorld)
     = Inl (createRepoError REPO_WRITE_FAILED ''Failed to persist user'' NoCause NoDetails)
   \<and> byId (store (snd (bulkUpsert failingFirstCall None True sched [ada, grace] freshWorld)))
        (id_user grace) = Some grace
   \<and> byId (store freshWorld) (id_user grace) = None"
  by (simp add: bulkUpsert_def failingFirstCall_def freshWorld_def runTasks_def upsertOp_def
      upsert_def cached_def replayEligible_def truthyKey_def persistFresh_def Let_def emptyRepo_def
      ada_def grace_def toLowerCase_def toLowerChar_def)

end
